theory Spec2Isabelle
  imports Complex_Main
begin

section \<open>The referral tree of the MLM backend\<close>

text \<open>
  The backend keeps one MongoDB collection of users (\<^verbatim>\<open>src/models/User.js\<close>) and
  reads and writes it from its Express routes. The collection is modelled as the list of
  its documents in insertion order; each route handler is a function from the collection
  (and the request) to a response and the collection it leaves behind.

  Conventions of the model:
  \<^item> an ObjectId is a natural number;
  \<^item> the numeric fields \<^verbatim>\<open>level\<close>, \<^verbatim>\<open>totalEarnings\<close> and
    \<^verbatim>\<open>totalPurchases\<close> hold integers, and integer arithmetic is exact (JavaScript
    rounds integers beyond \<open>2\<^sup>5\<^sup>3\<close>);
  \<^item> \<^verbatim>\<open>commissionRate\<close> holds a double, given by the rational number it stands for;
    no floating-point operation is computed in the model;
  \<^item> dates are natural numbers (a clock reading);
  \<^item> strings are ASCII: \<^verbatim>\<open>toLowerCase\<close> and \<^verbatim>\<open>trim\<close> act on the ASCII letters
    and the ASCII white space;
  \<^item> the profile-only fields of the schema (avatar, address, dateOfBirth, language,
    timezone, emailVerified, phoneVerified, updatedAt) are read by none of the operations
    below and are left out of the record.
\<close>

subsection \<open>Documents\<close>

type_synonym oid = nat

datatype role = Admin | Ambassador | Client

datatype status = Active | Inactive | Pending

record user =
  user_id :: oid
  email :: string
  password :: string
  firstName :: string
  lastName :: string
  phone :: "string option"
  role :: role
  status :: status
  sponsorId :: "oid option"
  upline :: "oid list"
  downline :: "oid list"
  level :: int
  ambassadorCode :: "string option"
  commissionRate :: rat
  totalEarnings :: int
  clientCode :: "string option"
  totalPurchases :: int
  createdAt :: nat
  lastLogin :: "nat option"

type_synonym store = "user list"

text \<open>The double that the literal \<^verbatim>\<open>0.05\<close> denotes, the default of the schema for
  \<^verbatim>\<open>commissionRate\<close> and the fallback of the handlers.\<close>

definition default_commissionRate :: rat where
  "default_commissionRate = 3602879701896397 / 72057594037927936"

text \<open>A JSON value, as a request body carries it; an object is the list of its keys and
  values, and numbers are integers.\<close>

datatype json =
    JNull
  | JBool bool
  | JNum int
  | JStr string
  | JArr "json list"
  | JObj "(string \<times> json) list"

text \<open>The responses that are errors, with the HTTP status each one is sent with.\<close>

datatype error =
    MissingRequiredFields
  | UserAlreadyExists
  | InvalidSponsorCode
  | RegistrationFailed
  | AccessDenied
  | UserNotFound
  | UpdateProfileFailed
  | CannotDeleteUserWithDownline
  | DashboardFailed
  | InvalidToken
  | AccountNotActive
  | InsufficientPermissions

fun status_code :: "error \<Rightarrow> nat" where
  "status_code MissingRequiredFields = 400"
| "status_code UserAlreadyExists = 400"
| "status_code InvalidSponsorCode = 400"
| "status_code RegistrationFailed = 500"
| "status_code AccessDenied = 403"
| "status_code UserNotFound = 404"
| "status_code UpdateProfileFailed = 500"
| "status_code CannotDeleteUserWithDownline = 400"
| "status_code DashboardFailed = 500"
| "status_code InvalidToken = 401"
| "status_code AccountNotActive = 403"
| "status_code InsufficientPermissions = 403"

subsection \<open>Strings\<close>

text \<open>The ASCII letters \<^verbatim>\<open>A\<close> to \<^verbatim>\<open>Z\<close> go to \<^verbatim>\<open>a\<close> to \<^verbatim>\<open>z\<close>; every other character stays.\<close>

definition lower_char :: "char \<Rightarrow> char" where
  "lower_char c =
     (case map_of (zip ''ABCDEFGHIJKLMNOPQRSTUVWXYZ'' ''abcdefghijklmnopqrstuvwxyz'') c of
        Some l \<Rightarrow> l
      | None \<Rightarrow> c)"

definition toLowerCase :: "string \<Rightarrow> string" where
  "toLowerCase s = map lower_char s"

definition is_space :: "char \<Rightarrow> bool" where
  "is_space c = (c \<in> set [CHR 0x09, CHR 0x0A, CHR 0x0B, CHR 0x0C, CHR 0x0D, CHR '' ''])"

definition trim :: "string \<Rightarrow> string" where
  "trim s = rev (dropWhile is_space (rev (dropWhile is_space s)))"

text \<open>\<^verbatim>\<open>n.toString()\<close> of a non-negative integer: its decimal digits.\<close>

definition digit_char :: "nat \<Rightarrow> char" where
  "digit_char d = ''0123456789'' ! (d mod 10)"

fun toString :: "nat \<Rightarrow> string" where
  "toString n =
     (if n < 10 then [digit_char n] else toString (n div 10) @ [digit_char (n mod 10)])"

declare toString.simps [simp del]

definition padStart :: "nat \<Rightarrow> char \<Rightarrow> string \<Rightarrow> string" where
  "padStart n c s = replicate (n - length s) c @ s"

text \<open>An integer in a template string.\<close>

definition toString_int :: "int \<Rightarrow> string" where
  "toString_int n = (if n < 0 then CHR ''-'' # toString (nat (- n)) else toString (nat n))"

text \<open>A floating-point product \<^verbatim>\<open>a * b\<close> of an integer and a double. The model keeps the
  two factors and does not compute the product.\<close>

datatype js_product = Times int rat

text \<open>
  A JavaScript value used as a condition: \<^verbatim>\<open>undefined\<close> and the empty string are falsy.
  \<open>truthy\<close> returns the string when it counts as true.
\<close>

fun truthy :: "string option \<Rightarrow> string option" where
  "truthy None = None"
| "truthy (Some []) = None"
| "truthy (Some (c # cs)) = Some (c # cs)"

text \<open>The same for a field that may hold any JSON value: \<^verbatim>\<open>undefined\<close>, \<^verbatim>\<open>null\<close>,
  \<^verbatim>\<open>false\<close>, \<^verbatim>\<open>0\<close> and the empty string are falsy, every other value is truthy.\<close>

fun js_truthy :: "json option \<Rightarrow> bool" where
  "js_truthy None = False"
| "js_truthy (Some JNull) = False"
| "js_truthy (Some (JBool b)) = b"
| "js_truthy (Some (JNum n)) = (n \<noteq> 0)"
| "js_truthy (Some (JStr s)) = (s \<noteq> [])"
| "js_truthy (Some (JArr vs)) = True"
| "js_truthy (Some (JObj kvs)) = True"

subsection \<open>Queries on the collection\<close>

definition findById :: "store \<Rightarrow> oid \<Rightarrow> user option" where
  "findById st i = find (\<lambda>u. user_id u = i) st"

text \<open>
  \<^verbatim>\<open>statics.findByEmail\<close>: \<^verbatim>\<open>this.findOne({ email: email.toLowerCase() })\<close>. Mongoose
  casts the value of the filter by the schema of the path, which runs the setters of
  \<^verbatim>\<open>email\<close> (\<^verbatim>\<open>lowercase\<close>, \<^verbatim>\<open>trim\<close>) on it; the stored emails are compared
  with the result.
\<close>

definition findByEmail :: "store \<Rightarrow> string \<Rightarrow> user option" where
  "findByEmail st e = find (\<lambda>u. email u = trim (toLowerCase (toLowerCase e))) st"

text \<open>\<^verbatim>\<open>$or: [{ ambassadorCode: code }, { clientCode: code }]\<close>, in \<^verbatim>\<open>statics.findByCode\<close>
  and in \<^verbatim>\<open>generateUniqueCode\<close>.\<close>

definition has_code :: "string \<Rightarrow> user \<Rightarrow> bool" where
  "has_code code u = (ambassadorCode u = Some code \<or> clientCode u = Some code)"

definition findByCode :: "store \<Rightarrow> string \<Rightarrow> user option" where
  "findByCode st code = find (has_code code) st"

text \<open>
  Saving a document that is already stored writes its modified paths to the stored
  document with the same \<^verbatim>\<open>_id\<close>.
\<close>

definition update_by_id :: "store \<Rightarrow> oid \<Rightarrow> (user \<Rightarrow> user) \<Rightarrow> store" where
  "update_by_id st i f = map (\<lambda>u. if user_id u = i then f u else u) st"

subsection \<open>Creating a document\<close>

text \<open>
  \<^verbatim>\<open>methods.generateUniqueCode\<close>. The loop draws \<^verbatim>\<open>Math.floor(Math.random() * 1000000)\<close>
  until the code is held by no stored document. The draws are an argument: each element of
  the list is one result of the random generator, reduced to the range \<open>0..999999\<close> of the
  expression. The loop has no bound of its own; the model returns \<open>None\<close> when every draw
  of the list collides, and otherwise the code together with the draws left over.
\<close>

definition code_of_draw :: "string \<Rightarrow> nat \<Rightarrow> string" where
  "code_of_draw prefix r =
     (let randomNum = padStart 6 (CHR ''0'') (toString (r mod 1000000))
      in prefix @ randomNum)"

fun generateUniqueCode :: "store \<Rightarrow> string \<Rightarrow> nat list \<Rightarrow> (string \<times> nat list) option" where
  "generateUniqueCode st prefix [] = None"
| "generateUniqueCode st prefix (r # rs) =
     (let code = code_of_draw prefix r
      in case find (has_code code) st of
           None \<Rightarrow> Some (code, rs)
         | Some existingUser \<Rightarrow> generateUniqueCode st prefix rs)"

text \<open>What a registration takes from outside the collection: the fresh ObjectId, the
  draws of the random generator, the clock, and bcrypt with its salt.\<close>

record reg_env =
  new_id :: oid
  draws :: "nat list"
  now :: nat
  bcrypt_hash :: "string \<Rightarrow> string"

text \<open>
  The body of \<^verbatim>\<open>POST /register\<close>; a field that is \<open>None\<close> is absent from the body.
  \<^verbatim>\<open>email\<close> is the one field on which the handler calls a method
  (\<^verbatim>\<open>email.toLowerCase()\<close>, in \<^verbatim>\<open>findByEmail\<close>), and it may hold any JSON value. The
  other fields are passed on to Mongoose, and they are strings.
\<close>

record register_req =
  r_email :: "json option"
  r_password :: "string option"
  r_firstName :: "string option"
  r_lastName :: "string option"
  r_phone :: "string option"
  r_role :: "string option"
  r_sponsorCode :: "string option"

fun role_of_string :: "string \<Rightarrow> role option" where
  "role_of_string s =
     (if s = ''admin'' then Some Admin
      else if s = ''ambassador'' then Some Ambassador
      else if s = ''client'' then Some Client
      else None)"

text \<open>
  \<^verbatim>\<open>new User(userData)\<close> followed by the first \<^verbatim>\<open>user.save()\<close>, in the order Mongoose
  runs it: the schema's setters (\<^verbatim>\<open>lowercase\<close>, \<^verbatim>\<open>trim\<close>) and defaults, validation
  (\<^verbatim>\<open>required\<close>, \<^verbatim>\<open>minlength\<close>, \<^verbatim>\<open>enum\<close>), the two \<^verbatim>\<open>pre('save')\<close> hooks (password
  hash, code generation), and the insert, which the unique indexes on \<^verbatim>\<open>_id\<close>,
  \<^verbatim>\<open>email\<close>, \<^verbatim>\<open>ambassadorCode\<close> and \<^verbatim>\<open>clientCode\<close> can refuse. Every failure is an
  exception that the handler turns into \<open>RegistrationFailed\<close>. The outer \<open>None\<close> is
  \<open>generateUniqueCode\<close> not returning.
\<close>

definition duplicate_key :: "store \<Rightarrow> user \<Rightarrow> bool" where
  "duplicate_key st u =
     list_ex (\<lambda>v. user_id v = user_id u
                 \<or> email v = email u
                 \<or> (ambassadorCode u \<noteq> None \<and> ambassadorCode v = ambassadorCode u)
                 \<or> (clientCode u \<noteq> None \<and> clientCode v = clientCode u)) st"

definition create_user ::
  "reg_env \<Rightarrow> store \<Rightarrow> string \<Rightarrow> string \<Rightarrow> string \<Rightarrow> string \<Rightarrow> string option \<Rightarrow> string
     \<Rightarrow> user option \<Rightarrow> (error + user \<times> store) option" where
  "create_user env st em pw fname lname ph rl sponsor =
     (case role_of_string rl of
        None \<Rightarrow> Some (Inl RegistrationFailed)
      | Some r \<Rightarrow>
          if trim (toLowerCase em) = [] \<or> length pw < 6 \<or> trim fname = [] \<or> trim lname = []
          then Some (Inl RegistrationFailed)
          else
            (case (if r = Ambassador then generateUniqueCode st ''AMB'' (draws env)
                   else if r = Client then generateUniqueCode st ''CLI'' (draws env)
                   else Some ([], draws env)) of
               None \<Rightarrow> None
             | Some (code, rest) \<Rightarrow>
                 let u = \<lparr> user_id = new_id env,
                           email = trim (toLowerCase em),
                           password = bcrypt_hash env pw,
                           firstName = trim fname,
                           lastName = trim lname,
                           phone = map_option trim ph,
                           role = r,
                           status = Pending,
                           sponsorId = map_option user_id sponsor,
                           upline = [],
                           downline = [],
                           level = (case sponsor of None \<Rightarrow> 0 | Some sp \<Rightarrow> level sp + 1),
                           ambassadorCode = (if r = Ambassador then Some code else None),
                           commissionRate = default_commissionRate,
                           totalEarnings = 0,
                           clientCode = (if r = Client then Some code else None),
                           totalPurchases = 0,
                           createdAt = now env,
                           lastLogin = None \<rparr>
                 in if duplicate_key st u then Some (Inl RegistrationFailed)
                    else Some (Inr (u, st @ [u]))))"

text \<open>
  The loop that builds the upline in \<^verbatim>\<open>POST /register\<close>:
  \<^verbatim>\<open>
  while (currentSponsor.sponsorId) {
    upline.push(currentSponsor.sponsorId);
    currentSponsor = await User.findById(currentSponsor.sponsorId);
    if (!currentSponsor) break;
  }
  \<close>
  It follows \<^verbatim>\<open>sponsorId\<close> from document to document and has no bound. The first
  argument of the model bounds the number of documents visited; \<open>None\<close> is the bound
  reached. The handler runs it with one more than the number of stored documents: a walk
  that visits more documents than there are has visited one twice, and the loop, whose
  next step depends on the current document only, then never ends.
\<close>

fun build_upline :: "nat \<Rightarrow> store \<Rightarrow> user \<Rightarrow> oid list \<Rightarrow> oid list option" where
  "build_upline 0 st currentSponsor acc = None"
| "build_upline (Suc n) st currentSponsor acc =
     (case sponsorId currentSponsor of
        None \<Rightarrow> Some acc
      | Some s \<Rightarrow>
          (case findById st s of
             None \<Rightarrow> Some (acc @ [s])
           | Some next_sponsor \<Rightarrow> build_upline n st next_sponsor (acc @ [s])))"

subsection \<open>Registration\<close>

text \<open>
  \<^verbatim>\<open>POST /register\<close> (\<^verbatim>\<open>src/routes/auth.js\<close>). The checks come in the order of the
  source: required fields, existing email, sponsor code. An email that is truthy and not
  a string makes \<^verbatim>\<open>email.toLowerCase()\<close> throw, which the handler answers with
  \<open>RegistrationFailed\<close>. After the insert the handler
  pushes the new id on the sponsor's \<^verbatim>\<open>downline\<close> and saves the sponsor, builds the
  upline and saves the user, sets \<^verbatim>\<open>lastLogin\<close> and saves the user again. The result is
  the response (the error, or the user document as last saved) and the collection;
  \<open>None\<close> is a request that never gets its response.
\<close>

definition link_sponsor :: "reg_env \<Rightarrow> store \<Rightarrow> user \<Rightarrow> user option \<Rightarrow> (user \<times> store) option" where
  "link_sponsor env st u sponsor =
     (case sponsor of
        None \<Rightarrow> Some (u, st)
      | Some sp \<Rightarrow>
          let st1 = update_by_id st (user_id sp) (\<lambda>d. d\<lparr>downline := downline d @ [user_id u]\<rparr>)
          in (case build_upline (Suc (length st1)) st1 sp [] of
                None \<Rightarrow> None
              | Some chain \<Rightarrow>
                  Some (u\<lparr>upline := chain\<rparr>,
                        update_by_id st1 (user_id u) (\<lambda>d. d\<lparr>upline := chain\<rparr>))))"

definition register_with ::
  "reg_env \<Rightarrow> store \<Rightarrow> string \<Rightarrow> string \<Rightarrow> string \<Rightarrow> string \<Rightarrow> register_req \<Rightarrow> user option
     \<Rightarrow> ((error + user) \<times> store) option" where
  "register_with env st em pw fname lname req sponsor =
     (case create_user env st em pw fname lname (r_phone req)
             (case r_role req of None \<Rightarrow> ''client'' | Some r \<Rightarrow> r) sponsor of
        None \<Rightarrow> None
      | Some (Inl e) \<Rightarrow> Some (Inl e, st)
      | Some (Inr (u, st1)) \<Rightarrow>
          (case link_sponsor env st1 u sponsor of
             None \<Rightarrow> None
           | Some (u2, st2) \<Rightarrow>
               Some (Inr (u2\<lparr>lastLogin := Some (now env)\<rparr>),
                     update_by_id st2 (user_id u2) (\<lambda>d. d\<lparr>lastLogin := Some (now env)\<rparr>))))"

definition register :: "reg_env \<Rightarrow> store \<Rightarrow> register_req \<Rightarrow> ((error + user) \<times> store) option" where
  "register env st req =
     (case (truthy (r_password req), truthy (r_firstName req), truthy (r_lastName req)) of
        (Some pw, Some fname, Some lname) \<Rightarrow>
          if \<not> js_truthy (r_email req) then Some (Inl MissingRequiredFields, st)
          else
            (case r_email req of
               Some (JStr em) \<Rightarrow>
                 (case findByEmail st em of
                    Some existingUser \<Rightarrow> Some (Inl UserAlreadyExists, st)
                  | None \<Rightarrow>
                      (case truthy (r_sponsorCode req) of
                         None \<Rightarrow> register_with env st em pw fname lname req None
                       | Some sponsorCode \<Rightarrow>
                           (case findByCode st sponsorCode of
                              None \<Rightarrow> Some (Inl InvalidSponsorCode, st)
                            | Some sponsor \<Rightarrow>
                                register_with env st em pw fname lname req (Some sponsor))))
             | _ \<Rightarrow> Some (Inl RegistrationFailed, st))
      | _ \<Rightarrow> Some (Inl MissingRequiredFields, st))"

subsection \<open>Aggregates\<close>

text \<open>
  \<^verbatim>\<open>Math.floor(Math.random() * k)\<close> takes any value from \<open>0\<close> to \<open>k - 1\<close>. The random
  generator is an argument of each handler that calls it: \<open>rnd i\<close> is what the \<open>i\<close>-th
  call of the request returns, reduced to the range by \<open>mod k\<close>.
\<close>

definition floor_random :: "(nat \<Rightarrow> nat) \<Rightarrow> nat \<Rightarrow> nat \<Rightarrow> nat" where
  "floor_random rnd i k = rnd i mod k"

text \<open>\<^verbatim>\<open>.populate('downline', ...)\<close>: the stored documents the ids refer to; an id that
  refers to no document is dropped from the populated array.\<close>

definition populate :: "store \<Rightarrow> oid list \<Rightarrow> user list" where
  "populate st ids = List.map_filter (findById st) ids"

text \<open>\<^verbatim>\<open>.sort({ createdAt: -1 })\<close> and the \<^verbatim>\<open>sort\<close> of the dashboard: newest first;
  documents created at the same time stay in the order they have.\<close>

definition newest_first :: "user list \<Rightarrow> user list" where
  "newest_first us = sort_key (\<lambda>u. - int (createdAt u)) us"

record dashboard_stats =
  downlineCount :: nat
  activeDownline :: nat
  totalDownlineEarnings :: int
  totalDownlinePurchases :: int
  stats_commissionRate :: rat

record ambassador_stats =
  a_monthlyEarnings :: "(string \<times> nat) list"
  a_averageCommission :: js_product
  a_rank :: string

record dashboard_data =
  stats :: dashboard_stats
  recentDownline :: "user list"
  ambassadorStats :: "ambassador_stats option"

text \<open>
  \<^verbatim>\<open>GET /\<close> of \<^verbatim>\<open>src/routes/dashboard.js\<close>, for the authenticated user \<open>uid\<close>. The
  statistics run over the populated \<^verbatim>\<open>downline\<close> array of the user.
  \<^verbatim>\<open>averageCommission\<close> is the product \<^verbatim>\<open>user.commissionRate * 100\<close>, which the
  handler renders with one decimal. The \<^verbatim>\<open>user\<close> object of the response and the
  \<^verbatim>\<open>clientStats\<close> (a fixed purchase history, \<^verbatim>\<open>totalPurchases\<close> and its third) are
  copies of stored fields and constants; they are not part of the record. A user that is
  not found makes \<^verbatim>\<open>user.downline\<close> throw, which the handler answers with status 500.
\<close>

definition commissionRate_or_default :: "user \<Rightarrow> rat" where
  "commissionRate_or_default u =
     (if commissionRate u = 0 then default_commissionRate else commissionRate u)"

definition get_dashboard :: "store \<Rightarrow> (nat \<Rightarrow> nat) \<Rightarrow> oid \<Rightarrow> error + dashboard_data" where
  "get_dashboard st rnd uid =
     (case findById st uid of
        None \<Rightarrow> Inl DashboardFailed
      | Some u \<Rightarrow>
          let dl = populate st (downline u) in
          Inr \<lparr> stats = \<lparr> downlineCount = length dl,
                          activeDownline = length (filter (\<lambda>d. status d = Active) dl),
                          totalDownlineEarnings = foldl (\<lambda>sum d. sum + totalEarnings d) 0 dl,
                          totalDownlinePurchases = foldl (\<lambda>sum d. sum + totalPurchases d) 0 dl,
                          stats_commissionRate = commissionRate_or_default u \<rparr>,
                recentDownline = take 5 (newest_first dl),
                ambassadorStats =
                  (if role u = Ambassador
                   then Some \<lparr> a_monthlyEarnings =
                                 [(''Gen'', floor_random rnd 0 1000), (''Feb'', floor_random rnd 1 1000),
                                  (''Mar'', floor_random rnd 2 1000), (''Apr'', floor_random rnd 3 1000),
                                  (''Mag'', floor_random rnd 4 1000), (''Giu'', floor_random rnd 5 1000)],
                               a_averageCommission = Times 100 (commissionRate u),
                               a_rank = (if level u = 0 then ''Diretto''
                                         else ''Livello '' @ toString_int (level u)) \<rparr>
                   else None) \<rparr>)"

text \<open>
  \<^verbatim>\<open>GET /earnings\<close> of the ambassador routes, for the authenticated ambassador
  \<open>requester\<close> (\<^verbatim>\<open>req.user\<close>). The first pipeline matches
  \<^verbatim>\<open>{ sponsorId: req.user._id }\<close> and groups everything under \<^verbatim>\<open>_id: null\<close>; a
  \<^verbatim>\<open>$group\<close> over no document returns no group, and the handler reads
  \<^verbatim>\<open>earnings[0]?.totalEarnings || 0\<close>. \<^verbatim>\<open>totalCommission\<close> is the product of the
  purchases of the group and the commission rate; \<^verbatim>\<open>commissionRate\<close> is the product of
  the rate and 100, rendered with one decimal. The second pipeline matches
  \<^verbatim>\<open>{ upline: req.user._id }\<close>, groups by \<^verbatim>\<open>$level\<close> and sorts by level.
\<close>

record earnings_group =
  g_totalEarnings :: int
  g_totalPurchases :: int
  g_memberCount :: nat

definition aggregate_by_sponsor :: "store \<Rightarrow> oid \<Rightarrow> earnings_group list" where
  "aggregate_by_sponsor st uid =
     (let ms = filter (\<lambda>u. sponsorId u = Some uid) st
      in if ms = [] then []
         else [\<lparr> g_totalEarnings = sum_list (map totalEarnings ms),
                  g_totalPurchases = sum_list (map totalPurchases ms),
                  g_memberCount = length ms \<rparr>])"

record level_group =
  l_level :: int
  l_count :: nat
  l_totalEarnings :: int
  l_totalPurchases :: int

definition aggregate_by_level :: "store \<Rightarrow> oid \<Rightarrow> level_group list" where
  "aggregate_by_level st uid =
     (let ms = filter (\<lambda>u. uid \<in> set (upline u)) st
      in map (\<lambda>l. let g = filter (\<lambda>u. level u = l) ms
                  in \<lparr> l_level = l, l_count = length g,
                       l_totalEarnings = sum_list (map totalEarnings g),
                       l_totalPurchases = sum_list (map totalPurchases g) \<rparr>)
             (sort (remdups (map level ms))))"

record earnings_summary =
  s_totalEarnings :: int
  s_totalCommission :: js_product
  s_memberCount :: nat
  s_commissionRate :: js_product

record earnings_data =
  summary :: earnings_summary
  earningsByLevel :: "level_group list"
  monthlyEarnings :: "(string \<times> nat \<times> nat) list"

definition get_earnings :: "store \<Rightarrow> (nat \<Rightarrow> nat) \<Rightarrow> user \<Rightarrow> earnings_data" where
  "get_earnings st rnd requester =
     (let earnings = aggregate_by_sponsor st (user_id requester);
          rate = commissionRate_or_default requester;
          totalCommission =
            Times (case earnings of [] \<Rightarrow> 0 | g # _ \<Rightarrow> g_totalPurchases g) rate
      in \<lparr> summary = \<lparr> s_totalEarnings = (case earnings of [] \<Rightarrow> 0 | g # _ \<Rightarrow> g_totalEarnings g),
                        s_totalCommission = totalCommission,
                        s_memberCount = (case earnings of [] \<Rightarrow> 0 | g # _ \<Rightarrow> g_memberCount g),
                        s_commissionRate = Times 100 rate \<rparr>,
           earningsByLevel = aggregate_by_level st (user_id requester),
           monthlyEarnings =
             [(''Gen'', floor_random rnd 0 1000, floor_random rnd 1 100),
              (''Feb'', floor_random rnd 2 1000, floor_random rnd 3 100),
              (''Mar'', floor_random rnd 4 1000, floor_random rnd 5 100),
              (''Apr'', floor_random rnd 6 1000, floor_random rnd 7 100),
              (''Mag'', floor_random rnd 8 1000, floor_random rnd 9 100),
              (''Giu'', floor_random rnd 10 1000, floor_random rnd 11 100)] \<rparr>)"

subsection \<open>The network tree\<close>


















subsection \<open>Requests in a row\<close>








subsection \<open>Deleting a user\<close>

text \<open>
  \<^verbatim>\<open>DELETE /:userId\<close>, after the admin check of the middleware.
  \<^verbatim>\<open>findByIdAndDelete\<close> removes the first document with the id.
\<close>

fun delete_first :: "oid \<Rightarrow> store \<Rightarrow> store" where
  "delete_first i [] = []"
| "delete_first i (u # us) = (if user_id u = i then us else u # delete_first i us)"

definition delete_user :: "store \<Rightarrow> oid \<Rightarrow> (error + unit) \<times> store" where
  "delete_user st userId =
     (case findById st userId of
        None \<Rightarrow> (Inl UserNotFound, st)
      | Some u \<Rightarrow>
          if length (downline u) > 0 then (Inl CannotDeleteUserWithDownline, st)
          else (Inr (), delete_first userId st))"

subsection \<open>Updating a profile\<close>

text \<open>The request body of \<^verbatim>\<open>PUT /profile/:userId\<close> is the JSON object that the client
  sent.\<close>

text \<open>\<^verbatim>\<open>delete updateData.k\<close> removes the own property \<open>k\<close> of the object, and nothing
  below it.\<close>

definition delete_key :: "string \<Rightarrow> (string \<times> json) list \<Rightarrow> (string \<times> json) list" where
  "delete_key k obj = filter (\<lambda>kv. fst kv \<noteq> k) obj"

definition remove_sensitive :: "(string \<times> json) list \<Rightarrow> (string \<times> json) list" where
  "remove_sensitive updateData =
     delete_key ''totalPurchases''
      (delete_key ''totalEarnings''
        (delete_key ''level''
          (delete_key ''downline''
            (delete_key ''upline''
              (delete_key ''sponsorId''
                (delete_key ''clientCode''
                  (delete_key ''ambassadorCode''
                    (delete_key ''status''
                      (delete_key ''role''
                        (delete_key ''password'' updateData))))))))))"

fun status_of_string :: "string \<Rightarrow> status option" where
  "status_of_string s =
     (if s = ''active'' then Some Active
      else if s = ''inactive'' then Some Inactive
      else if s = ''pending'' then Some Pending
      else None)"

text \<open>
  \<^verbatim>\<open>User.findByIdAndUpdate(userId, updateData, { new: true, runValidators: true })\<close>.
  Mongoose reads the update document key by key: a key that is an update operator
  (it starts with \<^verbatim>\<open>$\<close>) keeps its meaning, every other key \<open>k\<close> with value \<open>v\<close> is
  moved under \<^verbatim>\<open>$set\<close>, and each path under \<^verbatim>\<open>$set\<close> is cast and validated by the
  schema before the document is written.

  The model covers the fragment of this that the handler's own data can be traced
  through: the operator \<^verbatim>\<open>$set\<close>, and paths that are top-level fields with a value of
  the field's JSON type (for \<^verbatim>\<open>commissionRate\<close>, an integer). For anything else (another operator, a dotted path, the
  reference and date fields, a value that Mongoose would have to convert) the result is
  \<open>None\<close>: the model says nothing about such a request. A path that the record does not
  have is either a profile field left out of the record or a key that the schema does
  not know and strict mode drops; it changes no field of the record. Within \<open>Some\<close>,
  \<open>Inl\<close> is the validation error that the handler answers with status 500.
\<close>

definition unmodelled_path :: "string \<Rightarrow> bool" where
  "unmodelled_path k =
     ((case k of [] \<Rightarrow> True | c # cs \<Rightarrow> c = CHR ''$'') \<or> CHR ''.'' \<in> set k
      \<or> k \<in> set [''_id'', ''sponsorId'', ''upline'', ''downline'', ''createdAt'', ''lastLogin''])"

definition cast_path :: "string \<Rightarrow> json \<Rightarrow> (error + (user \<Rightarrow> user)) option" where
  "cast_path k v =
     (if unmodelled_path k then None
      else if k = ''email'' then
        (case v of JStr s \<Rightarrow>
           if trim (toLowerCase s) = [] then Some (Inl UpdateProfileFailed)
           else Some (Inr (\<lambda>u. u\<lparr>email := trim (toLowerCase s)\<rparr>))
         | _ \<Rightarrow> None)
      else if k = ''password'' then
        (case v of JStr s \<Rightarrow>
           if length s < 6 then Some (Inl UpdateProfileFailed)
           else Some (Inr (\<lambda>u. u\<lparr>password := s\<rparr>))
         | _ \<Rightarrow> None)
      else if k = ''firstName'' then
        (case v of JStr s \<Rightarrow>
           if trim s = [] then Some (Inl UpdateProfileFailed)
           else Some (Inr (\<lambda>u. u\<lparr>firstName := trim s\<rparr>))
         | _ \<Rightarrow> None)
      else if k = ''lastName'' then
        (case v of JStr s \<Rightarrow>
           if trim s = [] then Some (Inl UpdateProfileFailed)
           else Some (Inr (\<lambda>u. u\<lparr>lastName := trim s\<rparr>))
         | _ \<Rightarrow> None)
      else if k = ''phone'' then
        (case v of JStr s \<Rightarrow> Some (Inr (\<lambda>u. u\<lparr>phone := Some (trim s)\<rparr>)) | _ \<Rightarrow> None)
      else if k = ''role'' then
        (case v of JStr s \<Rightarrow>
           (case role_of_string s of
              None \<Rightarrow> Some (Inl UpdateProfileFailed)
            | Some r \<Rightarrow> Some (Inr (\<lambda>u. u\<lparr>role := r\<rparr>)))
         | _ \<Rightarrow> None)
      else if k = ''status'' then
        (case v of JStr s \<Rightarrow>
           (case status_of_string s of
              None \<Rightarrow> Some (Inl UpdateProfileFailed)
            | Some x \<Rightarrow> Some (Inr (\<lambda>u. u\<lparr>status := x\<rparr>)))
         | _ \<Rightarrow> None)
      else if k = ''level'' then
        (case v of JNum n \<Rightarrow> Some (Inr (\<lambda>u. u\<lparr>level := n\<rparr>)) | _ \<Rightarrow> None)
      else if k = ''totalEarnings'' then
        (case v of JNum n \<Rightarrow> Some (Inr (\<lambda>u. u\<lparr>totalEarnings := n\<rparr>)) | _ \<Rightarrow> None)
      else if k = ''totalPurchases'' then
        (case v of JNum n \<Rightarrow> Some (Inr (\<lambda>u. u\<lparr>totalPurchases := n\<rparr>)) | _ \<Rightarrow> None)
      else if k = ''ambassadorCode'' then
        (case v of JStr s \<Rightarrow> Some (Inr (\<lambda>u. u\<lparr>ambassadorCode := Some s\<rparr>)) | _ \<Rightarrow> None)
      else if k = ''clientCode'' then
        (case v of JStr s \<Rightarrow> Some (Inr (\<lambda>u. u\<lparr>clientCode := Some s\<rparr>)) | _ \<Rightarrow> None)
      else if k = ''commissionRate'' then
        (case v of JNum n \<Rightarrow>
           if n < 0 \<or> 1 < n then Some (Inl UpdateProfileFailed)
           else Some (Inr (\<lambda>u. u\<lparr>commissionRate := of_int n\<rparr>))
         | _ \<Rightarrow> None)
      else Some (Inr (\<lambda>u. u)))"

fun cast_paths :: "(string \<times> json) list \<Rightarrow> (error + (user \<Rightarrow> user)) option" where
  "cast_paths [] = Some (Inr (\<lambda>u. u))"
| "cast_paths ((k, v) # kvs) =
     (case cast_path k v of
        None \<Rightarrow> None
      | Some (Inl e) \<Rightarrow> Some (Inl e)
      | Some (Inr f) \<Rightarrow>
          (case cast_paths kvs of
             None \<Rightarrow> None
           | Some (Inl e) \<Rightarrow> Some (Inl e)
           | Some (Inr g) \<Rightarrow> Some (Inr (\<lambda>u. g (f u)))))"

text \<open>
  The update document as a whole. Mongoose moves every key that is not an operator under
  \<^verbatim>\<open>$set\<close>, where it replaces a path of the same name, whatever the order of the keys
  in the body.
\<close>

definition set_operator_paths :: "(string \<times> json) list \<Rightarrow> (string \<times> json) list option" where
  "set_operator_paths updateData =
     map_option concat
       (those (map (\<lambda>kv. case snd kv of JObj paths \<Rightarrow> Some paths | _ \<Rightarrow> None)
                   (filter (\<lambda>kv. fst kv = ''$set'') updateData)))"

definition cast_update :: "(string \<times> json) list \<Rightarrow> (error + (user \<Rightarrow> user)) option" where
  "cast_update updateData =
     (let plain = filter (\<lambda>kv. fst kv \<noteq> ''$set'') updateData
      in case set_operator_paths updateData of
           None \<Rightarrow> None
         | Some paths \<Rightarrow>
             cast_paths (filter (\<lambda>kv. fst kv \<notin> fst ` set plain) paths @ plain))"

text \<open>The unique indexes, for a document that replaces the stored one with its id.\<close>

definition duplicate_key_update :: "store \<Rightarrow> user \<Rightarrow> bool" where
  "duplicate_key_update st u =
     list_ex (\<lambda>v. user_id v \<noteq> user_id u
                 \<and> (email v = email u
                    \<or> (ambassadorCode u \<noteq> None \<and> ambassadorCode v = ambassadorCode u)
                    \<or> (clientCode u \<noteq> None \<and> clientCode v = clientCode u))) st"

definition findByIdAndUpdate ::
  "store \<Rightarrow> oid \<Rightarrow> (string \<times> json) list \<Rightarrow> ((error + user option) \<times> store) option" where
  "findByIdAndUpdate st userId updateData =
     (case cast_update updateData of
        None \<Rightarrow> None
      | Some (Inl e) \<Rightarrow> Some (Inl e, st)
      | Some (Inr f) \<Rightarrow>
          (case findById st userId of
             None \<Rightarrow> Some (Inr None, st)
           | Some u \<Rightarrow>
               if duplicate_key_update st (f u) then Some (Inl UpdateProfileFailed, st)
               else Some (Inr (Some (f u)), update_by_id st userId f)))"

text \<open>
  The handler of \<^verbatim>\<open>PUT /profile/:userId\<close>; \<open>requester\<close> is \<^verbatim>\<open>req.user\<close>, the active
  user that \<^verbatim>\<open>authenticateToken\<close> found for the token.
\<close>

definition update_profile ::
  "store \<Rightarrow> user \<Rightarrow> oid \<Rightarrow> (string \<times> json) list \<Rightarrow> ((error + user) \<times> store) option" where
  "update_profile st requester userId body =
     (if user_id requester \<noteq> userId \<and> role requester \<noteq> Admin then Some (Inl AccessDenied, st)
      else
        (case findByIdAndUpdate st userId (remove_sensitive body) of
           None \<Rightarrow> None
         | Some (Inl e, st') \<Rightarrow> Some (Inl e, st')
         | Some (Inr None, st') \<Rightarrow> Some (Inl UserNotFound, st')
         | Some (Inr (Some u), st') \<Rightarrow> Some (Inr u, st')))"

subsection \<open>A chain of four registrations\<close>

text \<open>
  The scenario of the specification: A registers without a sponsor, B with A's code, C
  with B's code, D with C's code. The ids are 1 to 4, and the first draw of each
  registration is its id, so that the codes are \<^verbatim>\<open>AMB000001\<close> to \<^verbatim>\<open>AMB000004\<close>.
\<close>

definition chain_env :: "oid \<Rightarrow> reg_env" where
  "chain_env i = \<lparr> new_id = i, draws = [i, 0], now = 100 * i, bcrypt_hash = (\<lambda>p. ''$2b$'' @ p) \<rparr>"

definition chain_req :: "string \<Rightarrow> string option \<Rightarrow> register_req" where
  "chain_req e sponsorCode =
     \<lparr> r_email = Some (JStr e), r_password = Some ''secret1'', r_firstName = Some ''F'',
       r_lastName = Some ''L'', r_phone = None, r_role = Some ''ambassador'',
       r_sponsorCode = sponsorCode \<rparr>"

definition store_of :: "((error + user) \<times> store) option \<Rightarrow> store" where
  "store_of r = (case r of Some (x, st) \<Rightarrow> st | None \<Rightarrow> [])"

definition store_A :: store where
  "store_A = store_of (register (chain_env 1) [] (chain_req ''A@x.io'' None))"

definition store_B :: store where
  "store_B = store_of (register (chain_env 2) store_A (chain_req ''b@x.io'' (Some ''AMB000001'')))"

definition store_C :: store where
  "store_C = store_of (register (chain_env 3) store_B (chain_req ''c@x.io'' (Some ''AMB000002'')))"

definition store_D :: store where
  "store_D = store_of (register (chain_env 4) store_C (chain_req ''d@x.io'' (Some ''AMB000003'')))"


text \<open>The business events that credit earnings and purchases are outside these sources;
  the scenario of the specification sets the earnings of B, C and D to 10. Here each of
  them has purchases of 7 as well, and an administrator has activated the account of A.\<close>

definition credit :: "user \<Rightarrow> user" where
  "credit u = u\<lparr>totalEarnings := 10, totalPurchases := 7\<rparr>"

definition store_earning :: store where
  "store_earning =
     update_by_id (update_by_id (update_by_id (update_by_id store_D 2 credit) 3 credit) 4 credit)
       1 (\<lambda>u. u\<lparr>status := Active\<rparr>)"

definition chain_user ::
  "oid \<Rightarrow> string \<Rightarrow> string \<Rightarrow> oid option \<Rightarrow> oid list \<Rightarrow> oid list \<Rightarrow> int \<Rightarrow> user" where
  "chain_user i e code sp up down lv =
     \<lparr> user_id = i, email = e, password = ''$2b$secret1'', firstName = ''F'', lastName = ''L'',
       phone = None, role = Ambassador, status = Pending, sponsorId = sp, upline = up,
       downline = down, level = lv, ambassadorCode = Some code,
       commissionRate = default_commissionRate, totalEarnings = 0,
       clientCode = None, totalPurchases = 0, createdAt = 100 * i, lastLogin = Some (100 * i) \<rparr>"

text \<open>The sponsor that a registration request resolves to, if any.\<close>

definition resolved_sponsor :: "store \<Rightarrow> register_req \<Rightarrow> user option" where
  "resolved_sponsor st req =
     (case truthy (r_sponsorCode req) of None \<Rightarrow> None | Some c \<Rightarrow> findByCode st c)"

text \<open>The codes a document holds, and the two invariants of the collection that
  registration is to keep: no code is held twice, in either field; and the stored emails
  are lowercased and pairwise different, so that no two of them are equal up to case.\<close>

definition codes_of :: "user \<Rightarrow> string list" where
  "codes_of u =
     (case ambassadorCode u of None \<Rightarrow> [] | Some c \<Rightarrow> [c])
     @ (case clientCode u of None \<Rightarrow> [] | Some c \<Rightarrow> [c])"

definition codes_unique :: "store \<Rightarrow> bool" where
  "codes_unique st = distinct (concat (map codes_of st))"

definition emails_unique :: "store \<Rightarrow> bool" where
  "emails_unique st =
     (list_all (\<lambda>u. toLowerCase (email u) = email u) st
      \<and> distinct (map (\<lambda>u. toLowerCase (email u)) st))"

text \<open>The stored emails have no white space at their ends, as the \<^verbatim>\<open>trim\<close> setter of
  the schema leaves them.\<close>

definition emails_trimmed :: "store \<Rightarrow> bool" where
  "emails_trimmed st = list_all (\<lambda>u. trim (email u) = email u) st"

text \<open>Two random generators for the scenarios: one that always returns 0, and one whose
  \<open>i\<close>-th call returns \<open>i\<close>.\<close>

definition zero_draws :: "nat \<Rightarrow> nat" where
  "zero_draws i = 0"



text \<open>A as the chains of four and of five store it, with the account activated.\<close>

definition root_A :: user where
  "root_A = (chain_user 1 ''a@x.io'' ''AMB000001'' None [] [2] 0)\<lparr>status := Active\<rparr>"

text \<open>A as it is after an administrator has activated the account, and the collection
  that holds only A.\<close>

definition active_A :: user where
  "active_A = (chain_user 1 ''a@x.io'' ''AMB000001'' None [] [] 0)\<lparr>status := Active\<rparr>"

definition store_active :: store where
  "store_active = update_by_id store_A 1 (\<lambda>u. u\<lparr>status := Active\<rparr>)"

text \<open>The fields that \<^verbatim>\<open>PUT /profile/:userId\<close> is to leave alone.\<close>

definition sensitive_fields :: "string list" where
  "sensitive_fields =
     [''password'', ''role'', ''status'', ''ambassadorCode'', ''clientCode'', ''sponsorId'',
      ''upline'', ''downline'', ''level'', ''totalEarnings'', ''totalPurchases'']"

definition sensitive_part ::
  "user \<Rightarrow> string \<times> role \<times> status \<times> string option \<times> string option \<times> oid option
     \<times> oid list \<times> oid list \<times> int \<times> int \<times> int" where
  "sensitive_part u =
     (password u, role u, status u, ambassadorCode u, clientCode u, sponsorId u,
      upline u, downline u, level u, totalEarnings u, totalPurchases u)"

section \<open>Evaluating the chain\<close>

lemma replicate_numeral_unfold: "replicate (numeral k) c = c # replicate (pred_numeral k) c"
  by (simp add: numeral_eq_Suc)

lemmas string_eval = toLowerCase_def lower_char_def trim_def is_space_def padStart_def
  code_of_draw_def
  toString.simps digit_char_def replicate_numeral_unfold

lemmas register_eval = register_def register_with_def create_user_def link_sponsor_def
  findByEmail_def findByCode_def findById_def update_by_id_def duplicate_key_def has_code_def
  store_of_def chain_env_def chain_req_def chain_user_def Let_def

lemma register_A:
  "register (chain_env 1) [] (chain_req ''A@x.io'' None)
     = Some (Inr (chain_user 1 ''a@x.io'' ''AMB000001'' None [] [] 0),
             [chain_user 1 ''a@x.io'' ''AMB000001'' None [] [] 0])"
  by (simp add: register_eval string_eval)

lemma store_A_eq: "store_A = [chain_user 1 ''a@x.io'' ''AMB000001'' None [] [] 0]"
  unfolding store_A_def register_A store_of_def by simp

lemma register_B:
  "register (chain_env 2) store_A (chain_req ''b@x.io'' (Some ''AMB000001''))
     = Some (Inr (chain_user 2 ''b@x.io'' ''AMB000002'' (Some 1) [] [] 1),
             [chain_user 1 ''a@x.io'' ''AMB000001'' None [] [2] 0,
              chain_user 2 ''b@x.io'' ''AMB000002'' (Some 1) [] [] 1])"
  unfolding store_A_eq by (simp add: register_eval string_eval)

lemma store_B_eq:
  "store_B = [chain_user 1 ''a@x.io'' ''AMB000001'' None [] [2] 0,
              chain_user 2 ''b@x.io'' ''AMB000002'' (Some 1) [] [] 1]"
  unfolding store_B_def register_B store_of_def by simp

lemma register_C:
  "register (chain_env 3) store_B (chain_req ''c@x.io'' (Some ''AMB000002''))
     = Some (Inr (chain_user 3 ''c@x.io'' ''AMB000003'' (Some 2) [1] [] 2),
             [chain_user 1 ''a@x.io'' ''AMB000001'' None [] [2] 0,
              chain_user 2 ''b@x.io'' ''AMB000002'' (Some 1) [] [3] 1,
              chain_user 3 ''c@x.io'' ''AMB000003'' (Some 2) [1] [] 2])"
  unfolding store_B_eq by (simp add: register_eval string_eval)

lemma store_C_eq:
  "store_C = [chain_user 1 ''a@x.io'' ''AMB000001'' None [] [2] 0,
              chain_user 2 ''b@x.io'' ''AMB000002'' (Some 1) [] [3] 1,
              chain_user 3 ''c@x.io'' ''AMB000003'' (Some 2) [1] [] 2]"
  unfolding store_C_def register_C store_of_def by simp

lemma register_D:
  "register (chain_env 4) store_C (chain_req ''d@x.io'' (Some ''AMB000003''))
     = Some (Inr (chain_user 4 ''d@x.io'' ''AMB000004'' (Some 3) [2, 1] [] 3),
             [chain_user 1 ''a@x.io'' ''AMB000001'' None [] [2] 0,
              chain_user 2 ''b@x.io'' ''AMB000002'' (Some 1) [] [3] 1,
              chain_user 3 ''c@x.io'' ''AMB000003'' (Some 2) [1] [4] 2,
              chain_user 4 ''d@x.io'' ''AMB000004'' (Some 3) [2, 1] [] 3])"
  unfolding store_C_eq by (simp add: register_eval string_eval)

lemma store_D_eq:
  "store_D = [chain_user 1 ''a@x.io'' ''AMB000001'' None [] [2] 0,
              chain_user 2 ''b@x.io'' ''AMB000002'' (Some 1) [] [3] 1,
              chain_user 3 ''c@x.io'' ''AMB000003'' (Some 2) [1] [4] 2,
              chain_user 4 ''d@x.io'' ''AMB000004'' (Some 3) [2, 1] [] 3]"
  unfolding store_D_def register_D store_of_def by simp



section \<open>Registration\<close>

subsection \<open>What a successful registration stores\<close>

lemma update_by_id_absent: "i \<notin> user_id ` set st \<Longrightarrow> update_by_id st i f = st"
  by (induction st) (auto simp: update_by_id_def)

lemma update_by_id_append:
  "update_by_id (st @ [u]) i f = update_by_id st i f @ [if user_id u = i then f u else u]"
  by (simp add: update_by_id_def)

lemma findById_append_new:
  "i \<notin> user_id ` set st \<Longrightarrow> findById (st @ [u]) i = (if user_id u = i then Some u else None)"
  by (induction st) (auto simp: findById_def)

lemma user_id_update_by_id:
  "(\<And>d. user_id (f d) = user_id d) \<Longrightarrow> map user_id (update_by_id st i f) = map user_id st"
  by (induction st) (auto simp: update_by_id_def)

lemma user_ids_update_by_id:
  assumes "\<And>d. user_id (f d) = user_id d"
  shows "user_id ` set (update_by_id st i f) = user_id ` set st"
proof -
  have "set (map user_id (update_by_id st i f)) = set (map user_id st)"
    using assms by (simp only: user_id_update_by_id)
  then show ?thesis by simp
qed

lemma duplicate_key_id: "\<not> duplicate_key st u \<Longrightarrow> user_id u \<notin> user_id ` set st"
  by (auto simp: duplicate_key_def list_ex_iff)

lemma create_user_Inr:
  assumes "create_user env st em pw fname lname ph rl sponsor = Some (Inr (u, st1))"
  shows "st1 = st @ [u]" and "\<not> duplicate_key st u" and "user_id u = new_id env"
    and "level u = (case sponsor of None \<Rightarrow> 0 | Some sp \<Rightarrow> level sp + 1)"
    and "sponsorId u = map_option user_id sponsor"
    and "upline u = []" and "downline u = []"
    and "email u = trim (toLowerCase em)"
  using assms
  by (auto simp: create_user_def Let_def split: option.splits if_splits prod.splits)

lemma register_with_Inr:
  assumes "register_with env st em pw fname lname req sponsor = Some (Inr u, st')"
    and "case sponsor of None \<Rightarrow> True | Some sp \<Rightarrow> sp \<in> set st"
  shows "user_id u = new_id env" and "new_id env \<notin> user_id ` set st"
    and "level u = (case sponsor of None \<Rightarrow> 0 | Some sp \<Rightarrow> level sp + 1)"
    and "sponsorId u = map_option user_id sponsor"
    and "st' = (case sponsor of None \<Rightarrow> st
                | Some sp \<Rightarrow> update_by_id st (user_id sp)
                              (\<lambda>d. d\<lparr>downline := downline d @ [new_id env]\<rparr>)) @ [u]"
    and "email u = trim (toLowerCase em)"
proof -
  obtain u0 st1 where c: "create_user env st em pw fname lname (r_phone req)
             (case r_role req of None \<Rightarrow> ''client'' | Some r \<Rightarrow> r) sponsor = Some (Inr (u0, st1))"
    using assms(1) by (auto simp: register_with_def split: option.splits sum.splits prod.splits)
  note cu = create_user_Inr[OF c]
  have fresh: "new_id env \<notin> user_id ` set st"
    using duplicate_key_id[OF cu(2)] cu(3) by simp
  show "new_id env \<notin> user_id ` set st" by (rule fresh)
  obtain u2 st2 where l: "link_sponsor env st1 u0 sponsor = Some (u2, st2)"
    and u: "u = u2\<lparr>lastLogin := Some (now env)\<rparr>"
    and st': "st' = update_by_id st2 (user_id u2) (\<lambda>d. d\<lparr>lastLogin := Some (now env)\<rparr>)"
    using assms(1) c by (auto simp: register_with_def split: option.splits sum.splits prod.splits)
  show "user_id u = new_id env"
    "level u = (case sponsor of None \<Rightarrow> 0 | Some sp \<Rightarrow> level sp + 1)"
    "sponsorId u = map_option user_id sponsor" "email u = trim (toLowerCase em)"
    using l u cu by (auto simp: link_sponsor_def Let_def split: option.splits)
  show "st' = (case sponsor of None \<Rightarrow> st
                | Some sp \<Rightarrow> update_by_id st (user_id sp)
                              (\<lambda>d. d\<lparr>downline := downline d @ [new_id env]\<rparr>)) @ [u]"
  proof (cases sponsor)
    case None
    then have "u2 = u0" "st2 = st @ [u0]" using l cu(1) by (auto simp: link_sponsor_def)
    then show ?thesis using None st' u cu(3) fresh
      by (simp add: update_by_id_append update_by_id_absent)
  next
    case (Some sp)
    then have sp_in: "sp \<in> set st" using assms(2) by simp
    then have ne: "user_id sp \<noteq> new_id env" using fresh by (metis image_eqI)
    let ?push = "\<lambda>d. d\<lparr>downline := downline d @ [new_id env]\<rparr>"
    let ?st1 = "update_by_id st (user_id sp) ?push"
    have ids: "new_id env \<notin> user_id ` set ?st1"
      using fresh by (simp add: user_ids_update_by_id)
    obtain chain where u2: "u2 = u0\<lparr>upline := chain\<rparr>"
      and st2: "st2 = update_by_id (update_by_id st1 (user_id sp)
                        (\<lambda>d. d\<lparr>downline := downline d @ [user_id u0]\<rparr>))
                        (user_id u0) (\<lambda>d. d\<lparr>upline := chain\<rparr>)"
      using l Some by (auto simp: link_sponsor_def Let_def split: option.splits)
    show ?thesis using Some st' u u2 st2 cu(1,3) ne ids
      by (simp add: update_by_id_append update_by_id_absent)
  qed
qed

lemma findByCode_in_store: "findByCode st c = Some sp \<Longrightarrow> sp \<in> set st"
  by (auto simp: findByCode_def find_Some_iff)

lemma register_Inr:
  assumes "register env st req = Some (Inr u, st')"
  obtains em pw fname lname where "r_email req = Some (JStr em)"
    and "findByEmail st em = None"
    and "truthy (r_sponsorCode req) = None \<or> resolved_sponsor st req \<noteq> None"
    and "register_with env st em pw fname lname req (resolved_sponsor st req) = Some (Inr u, st')"
  using assms
  by (auto simp: register_def resolved_sponsor_def
           split: option.splits if_splits json.splits)

lemma resolved_sponsor_in_store:
  "case resolved_sponsor st req of None \<Rightarrow> True | Some sp \<Rightarrow> sp \<in> set st"
  by (auto simp: resolved_sponsor_def findByCode_in_store split: option.splits)

subsection \<open>The level of the new node\<close>

text \<open>
  C6. A successful registration gives the new node the level of the resolved sponsor plus
  one when the request carried a sponsor code, and level 0 when it carried none; the
  document stored under the new id is the one the handler reports. In the chain A, B, C,
  D the level of D is 3.
\<close>

theorem register_level:
  assumes "register env st req = Some (Inr u, st')"
  shows "(case truthy (r_sponsorCode req) of
            None \<Rightarrow> level u = 0
          | Some c \<Rightarrow> (\<exists>sp. findByCode st c = Some sp \<and> level u = level sp + 1))
         \<and> findById st' (user_id u) = Some u
         \<and> map_option level (findById store_D 4) = Some 3"
proof -
  from assms obtain em pw fname lname where
    sp: "truthy (r_sponsorCode req) = None \<or> resolved_sponsor st req \<noteq> None"
    and rw: "register_with env st em pw fname lname req (resolved_sponsor st req) = Some (Inr u, st')"
    by (rule register_Inr)
  note facts = register_with_Inr[OF rw resolved_sponsor_in_store]
  have lv: "case truthy (r_sponsorCode req) of
            None \<Rightarrow> level u = 0
          | Some c \<Rightarrow> (\<exists>sp. findByCode st c = Some sp \<and> level u = level sp + 1)"
    using sp facts(3) by (auto simp: resolved_sponsor_def split: option.splits)
  let ?st0 = "case resolved_sponsor st req of None \<Rightarrow> st
              | Some sp \<Rightarrow> update_by_id st (user_id sp)
                            (\<lambda>d. d\<lparr>downline := downline d @ [new_id env]\<rparr>)"
  have "new_id env \<notin> user_id ` set ?st0"
    using facts(2) by (simp add: user_ids_update_by_id split: option.splits)
  then have stored: "findById st' (user_id u) = Some u"
    using facts(1,5) by (simp add: findById_append_new)
  have "map_option level (findById store_D 4) = Some 3"
    unfolding store_D_eq by (simp add: findById_def chain_user_def)
  with lv stored show ?thesis by simp
qed

theorem register_level_witness:
  "register (chain_env 4) store_C (chain_req ''d@x.io'' (Some ''AMB000003''))
     = Some (Inr (chain_user 4 ''d@x.io'' ''AMB000004'' (Some 3) [2, 1] [] 3), store_D)
   \<and> findByCode store_C ''AMB000003'' = Some (chain_user 3 ''c@x.io'' ''AMB000003'' (Some 2) [1] [] 2)
   \<and> level (chain_user 4 ''d@x.io'' ''AMB000004'' (Some 3) [2, 1] [] 3) = 2 + 1
   \<and> findById store_D 4 = Some (chain_user 4 ''d@x.io'' ''AMB000004'' (Some 3) [2, 1] [] 3)"
proof -
  have r: "register (chain_env 4) store_C (chain_req ''d@x.io'' (Some ''AMB000003''))
     = Some (Inr (chain_user 4 ''d@x.io'' ''AMB000004'' (Some 3) [2, 1] [] 3), store_D)"
    unfolding register_D store_D_eq by simp
  have c: "findByCode store_C ''AMB000003''
             = Some (chain_user 3 ''c@x.io'' ''AMB000003'' (Some 2) [1] [] 2)"
    unfolding store_C_eq by (simp add: findByCode_def has_code_def chain_user_def)
  show ?thesis
    using register_level[OF r] r c by (simp add: chain_user_def chain_req_def)
qed

subsection \<open>The upline of the new node\<close>

text \<open>
  C1. The upline that the handler stores for D in the chain A, B, C, D is \<open>[B, A]\<close>: the
  loop pushes the sponsor's own sponsor first, so C, the sponsor of D, is not in it. In
  the same way the upline of C is \<open>[A]\<close> and the upline of B, whose sponsor is the root A,
  is empty, as is the upline of A, which has no sponsor.
\<close>

theorem chain_upline_omits_sponsor:
  "map_option upline (findById store_D 4) = Some [2, 1]
   \<and> map_option sponsorId (findById store_D 4) = Some (Some 3)
   \<and> map_option upline (findById store_D 3) = Some [1]
   \<and> map_option upline (findById store_D 2) = Some []
   \<and> map_option sponsorId (findById store_D 2) = Some (Some 1)
   \<and> map_option upline (findById store_D 1) = Some []"
  unfolding store_D_eq by (simp add: findById_def chain_user_def)

subsection \<open>Requests that are refused\<close>

lemma register_Inl: "register env st req = Some (Inl e, st') \<Longrightarrow> st' = st"
  by (auto simp: register_def register_with_def
           split: option.splits sum.splits prod.splits if_splits json.splits)

lemma lower_char_idem: "lower_char (lower_char c) = lower_char c"
  by (simp add: lower_char_def)

lemma toLowerCase_idem: "toLowerCase (toLowerCase s) = toLowerCase s"
  by (simp add: toLowerCase_def lower_char_idem)

lemma set_trim: "set (trim s) \<subseteq> set s"
proof -
  have "set (dropWhile is_space (rev (dropWhile is_space s))) \<subseteq> set (rev (dropWhile is_space s))"
    by (rule set_dropWhileD[THEN subsetI])
  also have "\<dots> \<subseteq> set s"
    using set_dropWhileD[of _ is_space s] by auto
  finally show ?thesis by (simp add: trim_def)
qed

lemma toLowerCase_trim: "toLowerCase (trim (toLowerCase s)) = trim (toLowerCase s)"
proof -
  have "\<forall>c \<in> set (trim (toLowerCase s)). lower_char c = c"
    using set_trim[of "toLowerCase s"] by (auto simp: toLowerCase_def lower_char_idem)
  then show ?thesis
    unfolding toLowerCase_def[of "trim _"] by (simp add: map_idI)
qed

lemma dropWhile_id: "xs = [] \<or> \<not> P (hd xs) \<Longrightarrow> dropWhile P xs = xs"
  by (cases xs) auto

lemma trim_ends:
  "trim s = [] \<or> (\<not> is_space (hd (trim s)) \<and> \<not> is_space (last (trim s)))"
proof (cases "trim s = []")
  case True
  then show ?thesis by simp
next
  case False
  let ?xs = "dropWhile is_space s"
  let ?ys = "dropWhile is_space (rev ?xs)"
  have ys: "?ys \<noteq> []" using False by (simp add: trim_def)
  then have l: "\<not> is_space (hd ?ys)" by (rule hd_dropWhile)
  have xs: "?xs \<noteq> []"
  proof
    assume "?xs = []"
    then have "?ys = []" by (simp only: rev.simps dropWhile.simps)
    with ys show False by (rule notE)
  qed
  then have h: "\<not> is_space (hd ?xs)" by (rule hd_dropWhile)
  have "rev ?xs = takeWhile is_space (rev ?xs) @ ?ys" by simp
  then have "last (rev ?xs) = last ?ys" using ys by (metis last_appendR)
  then have "hd ?xs = last ?ys" using xs by (simp add: last_rev)
  then have "hd (trim s) = hd ?xs" "last (trim s) = hd ?ys"
    using ys by (simp_all add: trim_def hd_rev last_rev)
  then show ?thesis using h l by simp
qed

lemma trim_idem: "trim (trim s) = trim s"
proof (cases "trim s = []")
  case True
  have "trim [] = []" by (simp add: trim_def)
  then show ?thesis by (simp only: True)
next
  case False
  then have e: "\<not> is_space (hd (trim s))" "\<not> is_space (last (trim s))"
    using trim_ends[of s] by auto
  have 1: "dropWhile is_space (trim s) = trim s"
    using e(1) by (intro dropWhile_id) simp
  have "hd (rev (trim s)) = last (trim s)" using False by (simp add: hd_rev)
  then have 2: "dropWhile is_space (rev (trim s)) = rev (trim s)"
    using e(2) by (intro dropWhile_id) simp
  show ?thesis
    unfolding trim_def[of "trim s"] 1 2 by simp
qed

lemma findByEmail_None_iff:
  "findByEmail st e = None \<longleftrightarrow> trim (toLowerCase e) \<notin> email ` set st"
  by (simp add: findByEmail_def find_None_iff toLowerCase_idem image_iff) metis

lemma generateUniqueCode_Some:
  "generateUniqueCode st prefix rs = Some (code, rest)
     \<Longrightarrow> findByCode st code = None \<and> code \<in> code_of_draw prefix ` set rs"
  by (induction rs) (auto simp: findByCode_def Let_def split: option.splits)

lemma generateUniqueCode_None:
  "generateUniqueCode st prefix rs = None
     \<longleftrightarrow> list_all (\<lambda>r. findByCode st (code_of_draw prefix r) \<noteq> None) rs"
  by (induction rs) (auto simp: findByCode_def Let_def split: option.splits)

lemma findByCode_None_codes: "findByCode st code = None \<Longrightarrow> code \<notin> set (concat (map codes_of st))"
  by (auto simp: findByCode_def find_None_iff has_code_def codes_of_def split: option.splits)

lemma create_user_codes:
  assumes "create_user env st em pw fname lname ph rl sponsor = Some (Inr (u, st1))"
  shows "distinct (codes_of u)" and "set (codes_of u) \<inter> set (concat (map codes_of st)) = {}"
    and "email u \<notin> email ` set st"
proof -
  show "email u \<notin> email ` set st"
    using create_user_Inr(2)[OF assms] by (auto simp: duplicate_key_def list_ex_iff)
  have "codes_of u = [] \<or> (\<exists>c. codes_of u = [c] \<and> findByCode st c = None)"
    using assms
    by (auto simp: create_user_def Let_def codes_of_def
             split: option.splits if_splits prod.splits dest!: generateUniqueCode_Some)
  then show "distinct (codes_of u)" "set (codes_of u) \<inter> set (concat (map codes_of st)) = {}"
    using findByCode_None_codes by fastforce+
qed

lemma register_with_new_keys:
  assumes "register_with env st em pw fname lname req sponsor = Some (Inr u, st')"
  shows "distinct (codes_of u)" and "set (codes_of u) \<inter> set (concat (map codes_of st)) = {}"
    and "email u \<notin> email ` set st"
proof -
  obtain u0 st1 where c: "create_user env st em pw fname lname (r_phone req)
             (case r_role req of None \<Rightarrow> ''client'' | Some r \<Rightarrow> r) sponsor = Some (Inr (u0, st1))"
    using assms(1) by (auto simp: register_with_def split: option.splits sum.splits prod.splits)
  obtain u2 st2 where l: "link_sponsor env st1 u0 sponsor = Some (u2, st2)"
    and u: "u = u2\<lparr>lastLogin := Some (now env)\<rparr>"
    using assms(1) c by (auto simp: register_with_def split: option.splits sum.splits prod.splits)
  have "codes_of u = codes_of u0 \<and> email u = email u0"
    using l u by (auto simp: link_sponsor_def Let_def codes_of_def split: option.splits)
  then show "distinct (codes_of u)" "set (codes_of u) \<inter> set (concat (map codes_of st)) = {}"
    "email u \<notin> email ` set st"
    using create_user_codes[OF c] by simp_all
qed

lemma keys_push_downline:
  "map email (update_by_id st i (\<lambda>d. d\<lparr>downline := g d\<rparr>)) = map email st"
  "map codes_of (update_by_id st i (\<lambda>d. d\<lparr>downline := g d\<rparr>)) = map codes_of st"
  by (induction st) (auto simp: update_by_id_def codes_of_def)

lemma register_store:
  assumes "register env st req = Some (Inr u, st')"
  obtains st0 where "st' = st0 @ [u]" and "map email st0 = map email st"
    and "map codes_of st0 = map codes_of st"
    and "distinct (codes_of u)" and "set (codes_of u) \<inter> set (concat (map codes_of st)) = {}"
    and "email u \<notin> email ` set st" and "toLowerCase (email u) = email u"
    and "trim (email u) = email u"
proof -
  from assms obtain em pw fname lname where
    rw: "register_with env st em pw fname lname req (resolved_sponsor st req) = Some (Inr u, st')"
    by (rule register_Inr)
  note facts = register_with_Inr[OF rw resolved_sponsor_in_store]
  note keys = register_with_new_keys[OF rw]
  let ?st0 = "case resolved_sponsor st req of None \<Rightarrow> st
              | Some sp \<Rightarrow> update_by_id st (user_id sp)
                            (\<lambda>d. d\<lparr>downline := downline d @ [new_id env]\<rparr>)"
  have "map email ?st0 = map email st" "map codes_of ?st0 = map codes_of st"
    by (simp_all add: keys_push_downline split: option.splits)
  moreover have "toLowerCase (email u) = email u" "trim (email u) = email u"
    using facts(6) by (simp_all add: toLowerCase_trim trim_idem)
  ultimately show thesis
    using that[of ?st0] facts(5) keys by simp
qed

lemma register_keeps_codes_unique:
  assumes "codes_unique st" and "register env st req = Some (r, st')"
  shows "codes_unique st'"
proof (cases r)
  case (Inl e)
  then show ?thesis using assms register_Inl by blast
next
  case (Inr u)
  with assms(2) obtain st0 where "st' = st0 @ [u]" "map codes_of st0 = map codes_of st"
    "distinct (codes_of u)" "set (codes_of u) \<inter> set (concat (map codes_of st)) = {}"
    by (auto elim: register_store)
  then show ?thesis using assms(1) by (auto simp: codes_unique_def)
qed

lemma register_keeps_emails_unique:
  assumes "emails_unique st" and "register env st req = Some (r, st')"
  shows "emails_unique st'"
proof (cases r)
  case (Inl e)
  then show ?thesis using assms register_Inl by blast
next
  case (Inr u)
  with assms(2) obtain st0 where st': "st' = st0 @ [u]" and m: "map email st0 = map email st"
    and new: "email u \<notin> email ` set st" and low: "toLowerCase (email u) = email u"
    by (auto elim: register_store)
  have lc: "map (\<lambda>u. toLowerCase (email u)) st = map email st"
    using assms(1) by (auto simp: emails_unique_def list_all_iff)
  have "map (\<lambda>u. toLowerCase (email u)) st0 = map toLowerCase (map email st0)"
    by simp
  also have "\<dots> = map email st" using m lc by simp
  finally have lc0: "map (\<lambda>u. toLowerCase (email u)) st0 = map email st" .
  have all0: "list_all (\<lambda>u. toLowerCase (email u) = email u) st0"
    using lc0 m by (metis (mono_tags, lifting) list_all_iff map_eq_conv)
  have "distinct (map email st)" using assms(1) lc by (simp add: emails_unique_def)
  then show ?thesis
    using st' lc0 all0 new low by (simp add: emails_unique_def)
qed

lemma register_keeps_emails_trimmed:
  assumes "emails_trimmed st" and "register env st req = Some (r, st')"
  shows "emails_trimmed st'"
proof (cases r)
  case (Inl e)
  then show ?thesis using assms register_Inl by blast
next
  case (Inr u)
  with assms(2) obtain st0 where st': "st' = st0 @ [u]" and m: "map email st0 = map email st"
    and t: "trim (email u) = email u"
    by (auto elim: register_store)
  have "list_all (\<lambda>e. trim e = e) (map email st)"
    using assms(1) by (simp add: emails_trimmed_def list_all_iff)
  then have "list_all (\<lambda>e. trim e = e) (map email st0)"
    using m by simp
  then show ?thesis
    using st' t by (simp add: emails_trimmed_def list_all_iff)
qed

lemma existing_email_400:
  assumes "r_email req = Some (JStr e)" and "trim (toLowerCase e) \<in> email ` set st"
  shows "\<exists>err. register env st req = Some (Inl err, st) \<and> status_code err = 400"
proof -
  have f: "findByEmail st e \<noteq> None"
    using assms(2) by (simp add: findByEmail_None_iff)
  show ?thesis
  proof (cases "e = [] \<or> truthy (r_password req) = None
                \<or> truthy (r_firstName req) = None \<or> truthy (r_lastName req) = None")
    case True
    then have "register env st req = Some (Inl MissingRequiredFields, st)"
      using assms(1) by (auto simp: register_def split: option.splits)
    then show ?thesis by simp
  next
    case False
    then have "register env st req = Some (Inl UserAlreadyExists, st)"
      using f assms(1) by (auto simp: register_def split: option.splits)
    then show ?thesis by simp
  qed
qed

text \<open>
  C5, as the handler has it. A registration request with a sponsor code that is a
  non-empty string and that no stored document holds is refused, and the collection stays
  as it was. The error is \<open>InvalidSponsorCode\<close> when the earlier checks pass. A request
  that also lacks a required field, or whose email is registered already, gets the error
  of that check, with status 400 as well; one whose email is not a string gets
  \<open>RegistrationFailed\<close>, with status 500.
\<close>

theorem unknown_sponsor_code_rejected:
  assumes "r_sponsorCode req = Some (c # cs)" and "findByCode st (c # cs) = None"
  shows "register env st req =
           Some (Inl (if \<not> js_truthy (r_email req) \<or> truthy (r_password req) = None
                         \<or> truthy (r_firstName req) = None \<or> truthy (r_lastName req) = None
                      then MissingRequiredFields
                      else (case r_email req of
                              Some (JStr em) \<Rightarrow>
                                if findByEmail st em \<noteq> None then UserAlreadyExists
                                else InvalidSponsorCode
                            | _ \<Rightarrow> RegistrationFailed)), st)"
  using assms by (auto simp: register_def split: option.splits json.splits)

theorem unknown_sponsor_code_rejected_witness:
  "r_sponsorCode (chain_req ''b@x.io'' (Some ''NOCODE'')) = Some ''NOCODE''
   \<and> findByCode store_A ''NOCODE'' = None
   \<and> register (chain_env 2) store_A (chain_req ''b@x.io'' (Some ''NOCODE''))
       = Some (Inl InvalidSponsorCode, store_A)
   \<and> register (chain_env 2) store_A (chain_req '' A@x.io '' (Some ''NOCODE''))
       = Some (Inl UserAlreadyExists, store_A)"
proof -
  have a: "r_sponsorCode (chain_req e (Some ''NOCODE'')) = Some (CHR ''N'' # ''OCODE'')" for e
    by (simp add: chain_req_def)
  have b: "findByCode store_A (CHR ''N'' # ''OCODE'') = None"
    unfolding store_A_eq by (simp add: findByCode_def has_code_def chain_user_def)
  have "findByEmail store_A ''b@x.io'' = None" "findByEmail store_A '' A@x.io '' \<noteq> None"
    unfolding store_A_eq by (simp_all add: findByEmail_def chain_user_def string_eval)
  then show ?thesis
    using unknown_sponsor_code_rejected[OF a b, of "chain_env 2" "''b@x.io''"]
      unknown_sponsor_code_rejected[OF a b, of "chain_env 2" "'' A@x.io ''"] a b
    by (simp add: chain_req_def)
qed

text \<open>
  C5 as stated fails in three ways. A request whose email is registered already is
  answered \<open>UserAlreadyExists\<close> whatever its sponsor code is, and one whose email is a
  number is answered \<open>RegistrationFailed\<close>; and a sponsor code that is the empty string
  is falsy, so the request is registered without a sponsor and the collection grows.
\<close>

theorem unknown_sponsor_code_counterexample:
  "findByCode store_A ''NOCODE'' = None
   \<and> register (chain_env 2) store_A (chain_req ''a@x.io'' (Some ''NOCODE''))
       \<noteq> Some (Inl InvalidSponsorCode, store_A)
   \<and> register (chain_env 2) store_A (chain_req ''a@x.io'' (Some ''NOCODE''))
       = Some (Inl UserAlreadyExists, store_A)
   \<and> register (chain_env 2) store_A ((chain_req ''a@x.io'' (Some ''NOCODE''))\<lparr>r_email := Some (JNum 5)\<rparr>)
       = Some (Inl RegistrationFailed, store_A)
   \<and> status_code RegistrationFailed = 500
   \<and> findByCode store_A [] = None
   \<and> register (chain_env 2) store_A (chain_req ''b@x.io'' (Some []))
       = Some (Inr (chain_user 2 ''b@x.io'' ''AMB000002'' None [] [] 0),
               store_A @ [chain_user 2 ''b@x.io'' ''AMB000002'' None [] [] 0])"
  unfolding store_A_eq by (simp add: register_eval string_eval)

subsection \<open>Emails\<close>

text \<open>
  C10. A registration request whose email, lowercased and trimmed as the query is, is the
  email of a stored document is refused with status 400 and the collection stays as it
  was. The stored emails are trimmed, and then this is every request whose lowercased
  email is stored. Every registration keeps the stored emails lowercased and pairwise
  different, hence different up to case, and keeps them trimmed.
\<close>

theorem existing_email_rejected:
  "(\<forall>e. r_email req = Some (JStr e) \<longrightarrow> trim (toLowerCase e) \<in> email ` set st \<longrightarrow>
        (\<exists>err. register env st req = Some (Inl err, st) \<and> status_code err = 400))
   \<and> (\<forall>e. r_email req = Some (JStr e) \<longrightarrow> emails_trimmed st \<longrightarrow>
        toLowerCase e \<in> email ` set st \<longrightarrow>
        (\<exists>err. register env st req = Some (Inl err, st) \<and> status_code err = 400))
   \<and> (\<forall>r st'. emails_unique st \<longrightarrow> register env st req = Some (r, st') \<longrightarrow> emails_unique st')
   \<and> (\<forall>r st'. emails_trimmed st \<longrightarrow> register env st req = Some (r, st') \<longrightarrow> emails_trimmed st')"
proof -
  have "trim (toLowerCase e) \<in> email ` set st"
    if "emails_trimmed st" and "toLowerCase e \<in> email ` set st" for e
  proof -
    from that(2) obtain u where u: "u \<in> set st" "email u = toLowerCase e" by auto
    have "trim (email u) = email u"
      using that(1) u(1) by (simp add: emails_trimmed_def list_all_iff)
    then have "trim (toLowerCase e) = email u"
      by (simp only: u(2))
    then show ?thesis using u(1) by (metis image_eqI)
  qed
  then show ?thesis
    using existing_email_400 register_keeps_emails_unique register_keeps_emails_trimmed
    by blast
qed

theorem existing_email_rejected_witness:
  "r_email (chain_req '' A@X.io '' None) = Some (JStr '' A@X.io '')
   \<and> trim (toLowerCase '' A@X.io '') \<in> email ` set store_A
   \<and> register (chain_env 2) store_A (chain_req '' A@X.io '' None)
       = Some (Inl UserAlreadyExists, store_A)
   \<and> r_email (chain_req ''A@X.io'' None) = Some (JStr ''A@X.io'')
   \<and> toLowerCase ''A@X.io'' \<in> email ` set store_A
   \<and> register (chain_env 2) store_A (chain_req ''A@X.io'' None)
       = Some (Inl UserAlreadyExists, store_A)
   \<and> status_code UserAlreadyExists = 400
   \<and> emails_unique store_A \<and> emails_trimmed store_A
   \<and> register (chain_env 2) store_A (chain_req ''b@x.io'' (Some ''AMB000001''))
       = Some (Inr (chain_user 2 ''b@x.io'' ''AMB000002'' (Some 1) [] [] 1), store_B)
   \<and> emails_unique store_B \<and> emails_trimmed store_B"
proof -
  have a: "r_email (chain_req e None) = Some (JStr e)" for e
    by (simp add: chain_req_def)
  have b: "trim (toLowerCase '' A@X.io '') \<in> email ` set store_A"
    "toLowerCase ''A@X.io'' \<in> email ` set store_A"
    unfolding store_A_eq by (simp_all add: chain_user_def string_eval)
  have c: "register (chain_env 2) store_A (chain_req '' A@X.io '' None)
             = Some (Inl UserAlreadyExists, store_A)"
    "register (chain_env 2) store_A (chain_req ''A@X.io'' None)
             = Some (Inl UserAlreadyExists, store_A)"
    unfolding store_A_eq by (simp_all add: register_eval string_eval)
  have d: "emails_unique store_A" "emails_trimmed store_A"
    unfolding store_A_eq
    by (simp_all add: emails_unique_def emails_trimmed_def chain_user_def string_eval)
  have e: "register (chain_env 2) store_A (chain_req ''b@x.io'' (Some ''AMB000001''))
             = Some (Inr (chain_user 2 ''b@x.io'' ''AMB000002'' (Some 1) [] [] 1), store_B)"
    unfolding register_B store_B_eq by simp
  have "emails_unique store_B \<and> emails_trimmed store_B"
    using existing_email_rejected[of "chain_req ''b@x.io'' (Some ''AMB000001'')" store_A "chain_env 2"]
      d e by blast
  moreover have "\<exists>err. register (chain_env 2) store_A (chain_req '' A@X.io '' None)
                    = Some (Inl err, store_A) \<and> status_code err = 400"
    using existing_email_rejected[of "chain_req '' A@X.io '' None" store_A "chain_env 2"] a b(1)
    by blast
  moreover have "\<exists>err. register (chain_env 2) store_A (chain_req ''A@X.io'' None)
                    = Some (Inl err, store_A) \<and> status_code err = 400"
    using existing_email_rejected[of "chain_req ''A@X.io'' None" store_A "chain_env 2"] a b(2) d(2)
    by blast
  ultimately show ?thesis using a b c d e by simp
qed

subsection \<open>Codes\<close>

text \<open>
  C8. A code that \<open>generateUniqueCode\<close> returns is held by no stored document, neither
  as ambassador code nor as client code: the loop looks the candidate up in both fields
  and draws again on a hit. It returns no code exactly when every draw it is given is
  taken. Every registration keeps the codes of the collection pairwise different across
  both fields.
\<close>

theorem generated_code_is_unused:
  "(\<forall>code rest. generateUniqueCode st prefix rs = Some (code, rest) \<longrightarrow>
        findByCode st code = None
        \<and> list_all (\<lambda>u. ambassadorCode u \<noteq> Some code \<and> clientCode u \<noteq> Some code) st)
   \<and> (generateUniqueCode st prefix rs = None
        \<longleftrightarrow> list_all (\<lambda>r. findByCode st (code_of_draw prefix r) \<noteq> None) rs)
   \<and> (\<forall>r st'. codes_unique st \<longrightarrow> register env st req = Some (r, st') \<longrightarrow> codes_unique st')"
proof -
  have "findByCode st code = None
        \<and> list_all (\<lambda>u. ambassadorCode u \<noteq> Some code \<and> clientCode u \<noteq> Some code) st"
    if "generateUniqueCode st prefix rs = Some (code, rest)" for code rest
  proof -
    have n: "findByCode st code = None"
      using generateUniqueCode_Some[OF that] by simp
    then have "list_all (\<lambda>u. ambassadorCode u \<noteq> Some code \<and> clientCode u \<noteq> Some code) st"
      by (auto simp: findByCode_def find_None_iff has_code_def list_all_iff)
    with n show ?thesis by simp
  qed
  then show ?thesis
    using generateUniqueCode_None register_keeps_codes_unique by blast
qed

theorem generated_code_is_unused_witness:
  "generateUniqueCode store_A ''CLI'' [1, 1, 2] = Some (''CLI000001'', [1, 2])
   \<and> generateUniqueCode store_A ''AMB'' [1, 1, 2] = Some (''AMB000002'', [])
   \<and> findByCode store_A ''AMB000002'' = None
   \<and> generateUniqueCode store_A ''AMB'' [1, 1] = None
   \<and> codes_unique store_A
   \<and> register (chain_env 2) store_A (chain_req ''b@x.io'' (Some ''AMB000001''))
       = Some (Inr (chain_user 2 ''b@x.io'' ''AMB000002'' (Some 1) [] [] 1), store_B)
   \<and> codes_unique store_B"
proof -
  have a: "generateUniqueCode store_A ''AMB'' [1, 1, 2] = Some (''AMB000002'', [])"
    unfolding store_A_eq by (simp add: has_code_def chain_user_def string_eval)
  have a': "generateUniqueCode store_A ''CLI'' [1, 1, 2] = Some (''CLI000001'', [1, 2])"
    unfolding store_A_eq by (simp add: has_code_def chain_user_def string_eval)
  have n: "generateUniqueCode store_A ''AMB'' [1, 1] = None"
    unfolding store_A_eq by (simp add: has_code_def chain_user_def string_eval)
  have d: "codes_unique store_A"
    unfolding store_A_eq by (simp add: codes_unique_def codes_of_def chain_user_def)
  have e: "register (chain_env 2) store_A (chain_req ''b@x.io'' (Some ''AMB000001''))
             = Some (Inr (chain_user 2 ''b@x.io'' ''AMB000002'' (Some 1) [] [] 1), store_B)"
    unfolding register_B store_B_eq by simp
  note t = generated_code_is_unused[of store_A "''AMB''" "[1, 1, 2]" "chain_env 2"
      "chain_req ''b@x.io'' (Some ''AMB000001'')"]
  have "findByCode store_A ''AMB000002'' = None" using t a by blast
  moreover have "codes_unique store_B" using t d e by blast
  ultimately show ?thesis using a a' n d e by simp
qed

section \<open>The network tree\<close>
















section \<open>Deleting a user\<close>

lemma delete_first_split:
  "findById st i = Some u \<Longrightarrow>
     \<exists>pre post. st = pre @ u # post \<and> delete_first i st = pre @ post \<and> i \<notin> user_id ` set pre"
proof (induction st)
  case Nil
  then show ?case by (simp add: findById_def)
next
  case (Cons v st)
  show ?case
  proof (cases "user_id v = i")
    case True
    then have "u = v" using Cons.prems by (simp add: findById_def)
    then have "v # st = [] @ u # st \<and> delete_first i (v # st) = [] @ st \<and> i \<notin> user_id ` set []"
      using True by simp
    then show ?thesis by blast
  next
    case False
    then have "findById st i = Some u" using Cons.prems by (simp add: findById_def)
    then obtain pre post where "st = pre @ u # post" "delete_first i st = pre @ post"
      "i \<notin> user_id ` set pre"
      using Cons.IH by blast
    then have "v # st = (v # pre) @ u # post \<and> delete_first i (v # st) = (v # pre) @ post
               \<and> i \<notin> user_id ` set (v # pre)"
      using False by simp
    then show ?thesis by blast
  qed
qed

lemma findById_user_id: "findById st i = Some u \<Longrightarrow> user_id u = i"
  by (auto simp: findById_def find_Some_iff)

lemma findById_None_iff: "findById st i = None \<longleftrightarrow> i \<notin> user_id ` set st"
  by (auto simp: findById_def find_None_iff)

text \<open>
  C4, as the handler has it. Deleting a user whose \<^verbatim>\<open>downline\<close> is not empty is refused
  with status 400 and the collection stays as it was. Deleting a user whose
  \<^verbatim>\<open>downline\<close> is empty succeeds and takes that one document out of the collection;
  every other document stays as it was, the sponsor's included.
\<close>

theorem delete_user_effect:
  "(findById st userId = Some u \<longrightarrow> downline u \<noteq> [] \<longrightarrow>
      delete_user st userId = (Inl CannotDeleteUserWithDownline, st)
      \<and> status_code CannotDeleteUserWithDownline = 400)
   \<and> (findById st userId = Some u \<longrightarrow> downline u = [] \<longrightarrow>
        (\<exists>pre post. st = pre @ u # post
           \<and> delete_user st userId = (Inr (), pre @ post)
           \<and> (distinct (map user_id st) \<longrightarrow> findById (pre @ post) userId = None)))"
proof -
  have "\<exists>pre post. st = pre @ u # post
           \<and> delete_user st userId = (Inr (), pre @ post)
           \<and> (distinct (map user_id st) \<longrightarrow> findById (pre @ post) userId = None)"
    if f: "findById st userId = Some u" and leaf: "downline u = []"
  proof -
    obtain pre post where sp: "st = pre @ u # post" "delete_first userId st = pre @ post"
      "userId \<notin> user_id ` set pre"
      using delete_first_split[OF f] by blast
    have d: "delete_user st userId = (Inr (), pre @ post)"
      using f leaf sp(2) by (simp add: delete_user_def)
    have "findById (pre @ post) userId = None" if "distinct (map user_id st)"
      using that sp(1,3) findById_user_id[OF f] by (auto simp: findById_None_iff)
    with sp(1) d show ?thesis by blast
  qed
  then show ?thesis
    by (auto simp: delete_user_def)
qed

theorem delete_user_effect_witness:
  "findById store_B 1 = Some (chain_user 1 ''a@x.io'' ''AMB000001'' None [] [2] 0)
   \<and> downline (chain_user 1 ''a@x.io'' ''AMB000001'' None [] [2] 0) \<noteq> []
   \<and> delete_user store_B 1 = (Inl CannotDeleteUserWithDownline, store_B)
   \<and> findById store_B 2 = Some (chain_user 2 ''b@x.io'' ''AMB000002'' (Some 1) [] [] 1)
   \<and> downline (chain_user 2 ''b@x.io'' ''AMB000002'' (Some 1) [] [] 1) = []
   \<and> distinct (map user_id store_B)
   \<and> fst (delete_user store_B 2) = Inr ()
   \<and> findById (snd (delete_user store_B 2)) 2 = None"
proof -
  have a: "findById store_B 1 = Some (chain_user 1 ''a@x.io'' ''AMB000001'' None [] [2] 0)"
    and b: "findById store_B 2 = Some (chain_user 2 ''b@x.io'' ''AMB000002'' (Some 1) [] [] 1)"
    and d: "distinct (map user_id store_B)"
    unfolding store_B_eq by (simp_all add: findById_def chain_user_def)
  have a': "downline (chain_user 1 ''a@x.io'' ''AMB000001'' None [] [2] 0) \<noteq> []"
    and b': "downline (chain_user 2 ''b@x.io'' ''AMB000002'' (Some 1) [] [] 1) = []"
    by (simp_all add: chain_user_def)
  have "delete_user store_B 1 = (Inl CannotDeleteUserWithDownline, store_B)"
    using delete_user_effect[of store_B 1 "chain_user 1 ''a@x.io'' ''AMB000001'' None [] [2] 0"] a a'
    by blast
  moreover have "fst (delete_user store_B 2) = Inr () \<and> findById (snd (delete_user store_B 2)) 2 = None"
    using delete_user_effect[of store_B 2 "chain_user 2 ''b@x.io'' ''AMB000002'' (Some 1) [] [] 1"] b b' d
    by auto
  ultimately show ?thesis using a a' b b' d by simp
qed

text \<open>
  C4 as stated fails on its last part: after B, a leaf sponsored by A, is deleted, the
  \<^verbatim>\<open>downline\<close> of A still lists the id of B.
\<close>

theorem delete_user_counterexample:
  "map_option sponsorId (findById store_B 2) = Some (Some 1)
   \<and> map_option downline (findById store_B 2) = Some []
   \<and> fst (delete_user store_B 2) = Inr ()
   \<and> findById (snd (delete_user store_B 2)) 2 = None
   \<and> map_option downline (findById (snd (delete_user store_B 2)) 1) = Some [2]"
  unfolding store_B_eq by (simp add: delete_user_def findById_def chain_user_def)

section \<open>Aggregates\<close>

lemma store_earning_eq:
  "store_earning = [root_A,
              credit (chain_user 2 ''b@x.io'' ''AMB000002'' (Some 1) [] [3] 1),
              credit (chain_user 3 ''c@x.io'' ''AMB000003'' (Some 2) [1] [4] 2),
              credit (chain_user 4 ''d@x.io'' ''AMB000004'' (Some 3) [2, 1] [] 3)]"
  unfolding store_earning_def store_D_eq
  by (simp add: update_by_id_def chain_user_def root_A_def credit_def)

lemma default_commissionRate_nonzero: "default_commissionRate \<noteq> 0"
  by (simp add: default_commissionRate_def)

lemma root_A_rate: "commissionRate_or_default root_A = default_commissionRate"
  by (simp add: commissionRate_or_default_def root_A_def chain_user_def)

lemma foldl_add_sum: "foldl (\<lambda>sum d. sum + f d) a xs = a + sum_list (map f xs)" for a :: int
  by (induction xs arbitrary: a) auto

lemma summary_get_earnings:
  "summary (get_earnings st rnd requester)
     = \<lparr> s_totalEarnings =
           sum_list (map totalEarnings (filter (\<lambda>u. sponsorId u = Some (user_id requester)) st)),
         s_totalCommission =
           Times (sum_list (map totalPurchases (filter (\<lambda>u. sponsorId u = Some (user_id requester)) st)))
                 (commissionRate_or_default requester),
         s_memberCount = length (filter (\<lambda>u. sponsorId u = Some (user_id requester)) st),
         s_commissionRate = Times 100 (commissionRate_or_default requester) \<rparr>"
  by (simp add: get_earnings_def aggregate_by_sponsor_def Let_def)

lemma stats_get_dashboard:
  "findById st uid = Some rootUser \<Longrightarrow>
     map_sum id stats (get_dashboard st rnd uid)
       = Inr \<lparr> downlineCount = length (populate st (downline rootUser)),
               activeDownline = length (filter (\<lambda>d. status d = Active) (populate st (downline rootUser))),
               totalDownlineEarnings = sum_list (map totalEarnings (populate st (downline rootUser))),
               totalDownlinePurchases = sum_list (map totalPurchases (populate st (downline rootUser))),
               stats_commissionRate = commissionRate_or_default rootUser \<rparr>"
  by (simp add: get_dashboard_def Let_def foldl_add_sum)

lemma findById_store_earning: "findById store_earning 1 = Some root_A"
  unfolding store_earning_eq by (simp add: findById_def root_A_def chain_user_def)

text \<open>
  C2, as the handlers have it. The flat aggregate of \<^verbatim>\<open>GET /earnings\<close> runs over the
  documents whose \<^verbatim>\<open>sponsorId\<close> is the user: it sums their earnings, sums their
  purchases (the first factor of \<^verbatim>\<open>totalCommission\<close>) and counts them. The one of the
  dashboard runs over the documents of the user's \<^verbatim>\<open>downline\<close> array. Both are the
  direct children. In the chain A, B, C, D with earnings 10 and purchases 7 for B, C and
  D, the aggregate of A is earnings 10 and purchases 7 over 1 node.
\<close>

theorem flat_aggregate_direct_children:
  "summary (get_earnings st rnd requester)
     = \<lparr> s_totalEarnings =
           sum_list (map totalEarnings (filter (\<lambda>u. sponsorId u = Some (user_id requester)) st)),
         s_totalCommission =
           Times (sum_list (map totalPurchases (filter (\<lambda>u. sponsorId u = Some (user_id requester)) st)))
                 (commissionRate_or_default requester),
         s_memberCount = length (filter (\<lambda>u. sponsorId u = Some (user_id requester)) st),
         s_commissionRate = Times 100 (commissionRate_or_default requester) \<rparr>
   \<and> (findById st uid = Some rootUser \<longrightarrow>
        map_sum id stats (get_dashboard st rnd uid)
          = Inr \<lparr> downlineCount = length (populate st (downline rootUser)),
                  activeDownline = length (filter (\<lambda>d. status d = Active) (populate st (downline rootUser))),
                  totalDownlineEarnings = sum_list (map totalEarnings (populate st (downline rootUser))),
                  totalDownlinePurchases = sum_list (map totalPurchases (populate st (downline rootUser))),
                  stats_commissionRate = commissionRate_or_default rootUser \<rparr>)
   \<and> summary (get_earnings store_earning rnd root_A)
       = \<lparr> s_totalEarnings = 10, s_totalCommission = Times 7 default_commissionRate,
           s_memberCount = 1, s_commissionRate = Times 100 default_commissionRate \<rparr>
   \<and> map_sum id stats (get_dashboard store_earning rnd 1)
        = Inr \<lparr> downlineCount = 1, activeDownline = 0, totalDownlineEarnings = 10,
                totalDownlinePurchases = 7, stats_commissionRate = default_commissionRate \<rparr>"
proof -
  have 3: "summary (get_earnings store_earning rnd root_A)
       = \<lparr> s_totalEarnings = 10, s_totalCommission = Times 7 default_commissionRate,
           s_memberCount = 1, s_commissionRate = Times 100 default_commissionRate \<rparr>"
    unfolding summary_get_earnings root_A_rate unfolding store_earning_eq
    by (simp add: chain_user_def root_A_def credit_def)
  have 4: "map_sum id stats (get_dashboard store_earning rnd 1)
        = Inr \<lparr> downlineCount = 1, activeDownline = 0, totalDownlineEarnings = 10,
                totalDownlinePurchases = 7, stats_commissionRate = default_commissionRate \<rparr>"
    unfolding stats_get_dashboard[OF findById_store_earning] root_A_rate
    unfolding store_earning_eq
    by (simp add: populate_def List.map_filter_def findById_def chain_user_def root_A_def credit_def)
  show ?thesis using summary_get_earnings stats_get_dashboard 3 4 by blast
qed

theorem flat_aggregate_direct_children_witness:
  "findById store_earning 1 = Some root_A
   \<and> populate store_earning (downline root_A)
       = [credit (chain_user 2 ''b@x.io'' ''AMB000002'' (Some 1) [] [3] 1)]
   \<and> map_sum id stats (get_dashboard store_earning zero_draws 1)
        = Inr \<lparr> downlineCount = 1, activeDownline = 0, totalDownlineEarnings = 10,
                totalDownlinePurchases = 7, stats_commissionRate = default_commissionRate \<rparr>"
proof -
  have p: "populate store_earning (downline root_A)
       = [credit (chain_user 2 ''b@x.io'' ''AMB000002'' (Some 1) [] [3] 1)]"
    unfolding store_earning_eq
    by (simp add: populate_def List.map_filter_def findById_def chain_user_def root_A_def credit_def)
  have "map_sum id stats (get_dashboard store_earning zero_draws 1)
        = Inr \<lparr> downlineCount = length (populate store_earning (downline root_A)),
                activeDownline = length (filter (\<lambda>d. status d = Active) (populate store_earning (downline root_A))),
                totalDownlineEarnings = sum_list (map totalEarnings (populate store_earning (downline root_A))),
                totalDownlinePurchases = sum_list (map totalPurchases (populate store_earning (downline root_A))),
                stats_commissionRate = commissionRate_or_default root_A \<rparr>"
    using flat_aggregate_direct_children[of store_earning zero_draws root_A 1 root_A]
      findById_store_earning
    by blast
  then have "map_sum id stats (get_dashboard store_earning zero_draws 1)
        = Inr \<lparr> downlineCount = 1, activeDownline = 0, totalDownlineEarnings = 10,
                totalDownlinePurchases = 7, stats_commissionRate = default_commissionRate \<rparr>"
    unfolding p root_A_rate by (simp add: credit_def chain_user_def)
  then show ?thesis using p findById_store_earning by simp
qed

text \<open>
  C2 as stated fails on the chain: B, C and D descend from A and earn 10 each, and the
  aggregate of A reports earnings 10 and 1 node, not 30 and 3.
\<close>

theorem flat_aggregate_counterexample:
  "map sponsorId store_earning = [None, Some 1, Some 2, Some 3]
   \<and> map totalEarnings store_earning = [0, 10, 10, 10]
   \<and> s_totalEarnings (summary (get_earnings store_earning zero_draws root_A)) = 10
   \<and> s_memberCount (summary (get_earnings store_earning zero_draws root_A)) = 1
   \<and> s_totalEarnings (summary (get_earnings store_earning zero_draws root_A)) \<noteq> 30
   \<and> s_memberCount (summary (get_earnings store_earning zero_draws root_A)) \<noteq> 3
   \<and> map_sum id (totalDownlineEarnings \<circ> stats) (get_dashboard store_earning zero_draws 1) = Inr 10
   \<and> map_sum id (downlineCount \<circ> stats) (get_dashboard store_earning zero_draws 1) = Inr 1"
  unfolding store_earning_eq
  by (simp add: get_earnings_def aggregate_by_sponsor_def get_dashboard_def populate_def
      List.map_filter_def findById_def chain_user_def root_A_def credit_def Let_def)















section \<open>Updating a profile\<close>

lemma remove_sensitive_keys:
  "kv \<in> set (remove_sensitive body) \<Longrightarrow> fst kv \<notin> set sensitive_fields"
  by (auto simp: remove_sensitive_def delete_key_def sensitive_fields_def)

lemma remove_sensitive_subset: "set (remove_sensitive body) \<subseteq> set body"
  by (auto simp: remove_sensitive_def delete_key_def)

lemma cast_path_frame:
  assumes "cast_path k v = Some (Inr f)" and "k \<notin> set sensitive_fields"
  shows "sensitive_part (f u) = sensitive_part u"
  using assms
  by (auto simp: cast_path_def sensitive_fields_def sensitive_part_def
           split: if_splits json.splits option.splits)

lemma cast_paths_frame:
  assumes "cast_paths paths = Some (Inr f)"
    and "\<And>kv. kv \<in> set paths \<Longrightarrow> fst kv \<notin> set sensitive_fields"
  shows "sensitive_part (f u) = sensitive_part u"
  using assms
proof (induction paths arbitrary: f u)
  case Nil
  then show ?case by auto
next
  case (Cons kv paths)
  obtain k v where kv: "kv = (k, v)" by (cases kv)
  have k: "k \<notin> set sensitive_fields"
    using Cons.prems(2)[of kv] kv by auto
  obtain g h where g: "cast_path k v = Some (Inr g)" and h: "cast_paths paths = Some (Inr h)"
    and f: "f = (\<lambda>u. h (g u))"
    using Cons.prems(1) kv by (auto split: option.splits sum.splits)
  have "sensitive_part (h (g u)) = sensitive_part (g u)"
    using Cons.IH[OF h] Cons.prems(2) by simp
  then show ?case
    using cast_path_frame[OF g k] f by simp
qed

lemma cast_update_plain:
  assumes "\<And>kv. kv \<in> set updateData \<Longrightarrow> fst kv \<noteq> ''$set''"
  shows "cast_update updateData = cast_paths updateData"
proof -
  have "filter (\<lambda>kv. fst kv = ''$set'') updateData = []"
    "filter (\<lambda>kv. fst kv \<noteq> ''$set'') updateData = updateData"
    using assms by (simp_all add: filter_empty_conv filter_id_conv)
  then show ?thesis
    by (simp add: cast_update_def set_operator_paths_def)
qed

text \<open>
  What the deletions of the handler achieve: an update whose body uses no \<^verbatim>\<open>$set\<close>
  leaves the eleven sensitive fields of the stored document as they were.
\<close>

lemma plain_keys_keep_sensitive_fields:
  assumes "update_profile st requester userId body = Some (Inr u', st')"
    and "findById st userId = Some u"
    and "\<And>kv. kv \<in> set body \<Longrightarrow> fst kv \<noteq> ''$set''"
  shows "sensitive_part u' = sensitive_part u"
proof -
  obtain f where c: "cast_update (remove_sensitive body) = Some (Inr f)" and u': "u' = f u"
    using assms(1,2)
    by (auto simp: update_profile_def findByIdAndUpdate_def
             split: if_splits option.splits sum.splits prod.splits)
  have "cast_update (remove_sensitive body) = cast_paths (remove_sensitive body)"
    by (rule cast_update_plain) (use remove_sensitive_subset assms(3) in blast)
  then have "cast_paths (remove_sensitive body) = Some (Inr f)"
    using c by simp
  then show ?thesis
    unfolding u' by (rule cast_paths_frame) (rule remove_sensitive_keys)
qed

lemma store_active_eq: "store_active = [active_A]"
  unfolding store_active_def store_A_eq active_A_def by (simp add: update_by_id_def chain_user_def)

lemmas update_eval = update_profile_def findByIdAndUpdate_def remove_sensitive_def delete_key_def
  cast_update_def set_operator_paths_def cast_path_def unmodelled_path_def
  duplicate_key_update_def findById_def update_by_id_def Let_def

text \<open>
  C9. A is active and an ambassador, and updates its own profile. A body with the key
  \<^verbatim>\<open>role\<close> has the key deleted and the role stays. A body
  \<^verbatim>\<open>{"$set": {"role": "admin"}}\<close> has no key that the handler deletes, and the
  update makes A an administrator.
\<close>

theorem profile_update_set_operator:
  "findById store_active 1 = Some active_A
   \<and> role active_A = Ambassador
   \<and> status active_A = Active
   \<and> update_profile store_active active_A 1 [(''role'', JStr ''admin''), (''firstName'', JStr ''Zed'')]
       = Some (Inr (active_A\<lparr>firstName := ''Zed''\<rparr>), [active_A\<lparr>firstName := ''Zed''\<rparr>])
   \<and> update_profile store_active active_A 1 [(''$set'', JObj [(''role'', JStr ''admin'')])]
       = Some (Inr (active_A\<lparr>role := Admin\<rparr>), [active_A\<lparr>role := Admin\<rparr>])"
  unfolding store_active_eq
  by (simp add: update_eval active_A_def chain_user_def string_eval)

end
